theory Spec2Isabelle
  imports Main "HOL-Library.Word" "HOL-Library.AList"
begin

section \<open>The file integrity checker (integrity-check.py)\<close>

text \<open>
  The program keeps one JSON file (\<^verbatim>\<open>HASH_STORE\<close>) that maps file paths to SHA-256
  hex digests and offers three commands: \<^verbatim>\<open>init\<close>, \<^verbatim>\<open>check\<close> and \<^verbatim>\<open>update\<close>.
  Everything the Python functions read from or write to the outside is a field of the
  record \<open>world\<close>; every function takes the world and returns the new one together with
  its return value. An exception that the source does not catch is the \<open>Inl\<close> branch of
  the result.

  Two library functions are not part of the repository. \<^verbatim>\<open>hashlib.sha256\<close> is a
  parameter \<open>H\<close> of every function that hashes: the digest object is modelled by the
  bytes fed to it so far and \<^verbatim>\<open>hexdigest()\<close> is \<open>H\<close> applied to them. \<^verbatim>\<open>json.load\<close>
  and \<^verbatim>\<open>json.dump\<close> are modelled at the level of the JSON value they read and write:
  the field \<open>store_data\<close> is what \<^verbatim>\<open>json.load\<close> makes of the store file, and the bytes
  that \<^verbatim>\<open>json.dump\<close> writes for a value are given by the world (\<open>dump_bytes\<close>).

  The store file is a file like any other: the paths that name it (\<open>store_alias\<close>) can
  be hashed, checked and walked, and a write of the store changes what is read at them.
\<close>

subsection \<open>Data\<close>

type_synonym path = string
type_synonym byte = "8 word"
type_synonym hasher = "byte list \<Rightarrow> string"

text \<open>What \<^verbatim>\<open>json.load\<close> returns. The program never inspects a number.\<close>

datatype json =
    JNull
  | JBool bool
  | JNum int
  | JStr string
  | JArr "json list"
  | JObj "(string \<times> json) list"

text \<open>What \<^verbatim>\<open>os.path.isfile\<close> and \<^verbatim>\<open>os.path.isdir\<close> see at a path.\<close>

datatype kind = Regular | Directory | Neither

text \<open>
  The bytes at \<^verbatim>\<open>HASH_STORE\<close>, by what \<^verbatim>\<open>json.load\<close> makes of them: no file; bytes that
  do not decode as text (\<^verbatim>\<open>UnicodeDecodeError\<close>); text that \<^verbatim>\<open>json.load\<close> rejects
  (\<^verbatim>\<open>JSONDecodeError\<close>); text nested deeper than the interpreter's recursion limit
  (\<^verbatim>\<open>RecursionError\<close>); text with an integer literal longer than the interpreter's digit
  limit (\<^verbatim>\<open>ValueError\<close>); or the text of a JSON value.
\<close>

datatype store_data = Missing | Undecodable | NotJson | TooDeep | TooLong | Holds json

text \<open>
  The directory of \<^verbatim>\<open>HASH_STORE\<close> (the expanded \<^verbatim>\<open>~\<close>): a directory that can be
  searched, a directory that may not be searched (\<^verbatim>\<open>open\<close> raises \<^verbatim>\<open>PermissionError\<close>), or
  no directory at all (\<^verbatim>\<open>open\<close> raises \<^verbatim>\<open>NotADirectoryError\<close>).
\<close>

datatype dir_state = DirOK | DirNotSearchable | DirNotADirectory

text \<open>
  What happens when \<^verbatim>\<open>save_hash_store\<close> writes: the write completes, \<^verbatim>\<open>open(.., 'w')\<close>
  raises, or the file is opened (and so truncated) and the write then raises.
\<close>

datatype write_env = WriteOK | OpenFails | WriteFails

datatype exn =
    FileNotFoundError
  | NotADirectoryError
  | PermissionError
  | UnicodeDecodeError
  | JSONDecodeError
  | RecursionError
  | ValueError
  | TypeError
  | KeyError

text \<open>One constructor for each \<^verbatim>\<open>print\<close> of the source (the text of an exception is left out).\<close>

datatype line =
    ErrorReadingFile path
  | ErrorSavingStore
  | NotValidDirectory path
  | HashesStored nat
  | NotValidFile path
  | StatusNew
  | StatusUnmodified
  | StatusModified
  | HashUpdated
  | AllUnmodified
  | ModifiedHeader
  | NewHeader
  | ListItem path
  | NotFileOrDirectory path

record world =
  fs_kind :: "path \<Rightarrow> kind"
  fs_content :: "path \<Rightarrow> byte list option"
  fs_walk :: "path \<Rightarrow> (path \<times> string list) list"
  fs_walk_created :: "path \<Rightarrow> (path \<times> string list) list"
  store_alias :: "path \<Rightarrow> bool"
  store_dir :: dir_state
  store_data :: store_data
  store_readable :: bool
  store_write :: write_env
  dump_bytes :: "json \<Rightarrow> byte list"
  partial_bytes :: "json \<Rightarrow> byte list"
  stdout :: "line list"

text \<open>
  \<open>fs_content w p = None\<close>: opening or reading \<open>p\<close> raises \<^verbatim>\<open>IOError\<close>.
  \<open>fs_walk w d\<close>: the pairs \<open>(root, files)\<close> that \<^verbatim>\<open>os.walk(d)\<close> yields, in order.
  \<open>fs_walk_created w d\<close>: what \<^verbatim>\<open>os.walk(d)\<close> yields once the store file, absent so far,
  has been created.
  \<open>store_alias w p\<close>: the path \<open>p\<close> names the store file.
  \<open>store_readable w\<close>: an existing store file can be opened and read; otherwise
  \<^verbatim>\<open>open\<close> or \<^verbatim>\<open>read\<close> raises an \<^verbatim>\<open>OSError\<close>, which is written \<open>PermissionError\<close>.
  \<open>dump_bytes w j\<close>: the bytes of the text \<^verbatim>\<open>json.dump(j, f, indent=2)\<close> writes.
  \<open>partial_bytes w j\<close>: the bytes left in the store file when that write fails after
  \<^verbatim>\<open>open(.., 'w')\<close> truncated the file: a proper prefix of the text, which is not JSON.
\<close>

definition py_print :: "line \<Rightarrow> world \<Rightarrow> world" where
  "py_print l w = w\<lparr>stdout := stdout w @ [l]\<rparr>"

definition py_prints :: "line list \<Rightarrow> world \<Rightarrow> world" where
  "py_prints ls w = w\<lparr>stdout := stdout w @ ls\<rparr>"

subsection \<open>Python operations on the loaded store\<close>

fun is_substring :: "string \<Rightarrow> string \<Rightarrow> bool" where
  "is_substring p [] = (p = [])"
| "is_substring p (c # cs) = (take (length p) (c # cs) = p \<or> is_substring p cs)"

text \<open>\<^verbatim>\<open>key in store\<close> for a string key.\<close>

fun py_contains :: "json \<Rightarrow> string \<Rightarrow> exn + bool" where
  "py_contains (JObj kvs) k = Inr (map_of kvs k \<noteq> None)"
| "py_contains (JArr xs) k = Inr (JStr k \<in> set xs)"
| "py_contains (JStr s) k = Inr (is_substring k s)"
| "py_contains JNull k = Inl TypeError"
| "py_contains (JBool b) k = Inl TypeError"
| "py_contains (JNum n) k = Inl TypeError"

text \<open>\<^verbatim>\<open>store[key]\<close> for a string key.\<close>

fun py_getitem :: "json \<Rightarrow> string \<Rightarrow> exn + json" where
  "py_getitem (JObj kvs) k = (case map_of kvs k of None \<Rightarrow> Inl KeyError | Some v \<Rightarrow> Inr v)"
| "py_getitem (JArr xs) k = Inl TypeError"
| "py_getitem (JStr s) k = Inl TypeError"
| "py_getitem JNull k = Inl TypeError"
| "py_getitem (JBool b) k = Inl TypeError"
| "py_getitem (JNum n) k = Inl TypeError"

text \<open>\<^verbatim>\<open>store[key] = value\<close> for a string key; a dict keeps the position of an old key.\<close>

fun py_setitem :: "json \<Rightarrow> string \<Rightarrow> json \<Rightarrow> exn + json" where
  "py_setitem (JObj kvs) k v = Inr (JObj (AList.update k v kvs))"
| "py_setitem (JArr xs) k v = Inl TypeError"
| "py_setitem (JStr s) k v = Inl TypeError"
| "py_setitem JNull k v = Inl TypeError"
| "py_setitem (JBool b) k v = Inl TypeError"
| "py_setitem (JNum n) k v = Inl TypeError"

text \<open>\<^verbatim>\<open>current_hash == stored\<close>: \<open>current_hash\<close> is a string or \<^verbatim>\<open>None\<close>.\<close>

fun py_eq :: "string option \<Rightarrow> json \<Rightarrow> bool" where
  "py_eq None JNull = True"
| "py_eq (Some s) (JStr t) = (s = t)"
| "py_eq h v = False"

text \<open>\<^verbatim>\<open>os.path.join(root, file)\<close> (posixpath).\<close>

definition path_join :: "path \<Rightarrow> string \<Rightarrow> path" where
  "path_join a b =
     (if b \<noteq> [] \<and> hd b = CHR ''/'' then b
      else if a = [] \<or> last a = CHR ''/'' then a @ b
      else a @ CHR ''/'' # b)"

subsection \<open>compute_file_hash\<close>

text \<open>
  The \<^verbatim>\<open>while True\<close> loop: \<open>fed\<close> is what the digest object has been given, \<open>rest\<close> what
  the file still holds.
\<close>

function read_chunks :: "byte list \<Rightarrow> byte list \<Rightarrow> byte list" where
  "read_chunks fed rest =
     (if take 65536 rest = [] then fed
      else read_chunks (fed @ take 65536 rest) (drop 65536 rest))"
  by pat_completeness auto
termination
  by (relation "measure (\<lambda>(fed, rest). length rest)") auto

declare read_chunks.simps [simp del]

definition compute_file_hash :: "hasher \<Rightarrow> world \<Rightarrow> path \<Rightarrow> string option \<times> world" where
  "compute_file_hash H w file_path =
     (case fs_content w file_path of
        None \<Rightarrow> (None, py_print (ErrorReadingFile file_path) w)
      | Some bs \<Rightarrow> (Some (H (read_chunks [] bs)), w))"

subsection \<open>load_hash_store and save_hash_store\<close>

text \<open>\<^verbatim>\<open>with open(HASH_STORE, 'r') as f: json.load(f)\<close>, before the \<^verbatim>\<open>except\<close>.\<close>

definition open_and_parse :: "world \<Rightarrow> exn + json" where
  "open_and_parse w =
     (case store_dir w of
        DirNotADirectory \<Rightarrow> Inl NotADirectoryError
      | DirNotSearchable \<Rightarrow> Inl PermissionError
      | DirOK \<Rightarrow>
          if store_data w = Missing then Inl FileNotFoundError
          else if \<not> store_readable w then Inl PermissionError
          else (case store_data w of
                  Missing \<Rightarrow> Inl FileNotFoundError
                | Undecodable \<Rightarrow> Inl UnicodeDecodeError
                | NotJson \<Rightarrow> Inl JSONDecodeError
                | TooDeep \<Rightarrow> Inl RecursionError
                | TooLong \<Rightarrow> Inl ValueError
                | Holds j \<Rightarrow> Inr j))"

definition load_hash_store :: "world \<Rightarrow> exn + json" where
  "load_hash_store w =
     (case open_and_parse w of
        Inl e \<Rightarrow> (if e = FileNotFoundError \<or> e = JSONDecodeError then Inr (JObj []) else Inl e)
      | Inr j \<Rightarrow> Inr j)"

text \<open>
  What the write of \<^verbatim>\<open>save_hash_store\<close> meets: \<^verbatim>\<open>open(HASH_STORE, 'w')\<close> raises when the
  directory of the store is not a searchable directory.
\<close>

definition write_outcome :: "world \<Rightarrow> write_env" where
  "write_outcome w = (if store_dir w = DirOK then store_write w else OpenFails)"

text \<open>
  The world once \<^verbatim>\<open>open(HASH_STORE, 'w')\<close> has succeeded and the store file is left with the
  bytes \<open>bs\<close>, which \<^verbatim>\<open>json.load\<close> reads as \<open>d\<close>: the store file exists, so every path that
  names it is a regular file with these bytes, and a walk finds it.
\<close>

definition store_written :: "world \<Rightarrow> store_data \<Rightarrow> byte list \<Rightarrow> world" where
  "store_written w d bs =
     w\<lparr>fs_kind := (\<lambda>p. if store_alias w p then Regular else fs_kind w p),
        fs_content := (\<lambda>p. if store_alias w p
                            then (if store_readable w then Some bs else None)
                            else fs_content w p),
        fs_walk := (if store_data w = Missing then fs_walk_created w else fs_walk w),
        store_data := d\<rparr>"

definition save_hash_store :: "world \<Rightarrow> json \<Rightarrow> bool \<times> world" where
  "save_hash_store w store =
     (case write_outcome w of
        WriteOK \<Rightarrow> (True, store_written w (Holds store) (dump_bytes w store))
      | OpenFails \<Rightarrow> (False, py_print ErrorSavingStore w)
      | WriteFails \<Rightarrow>
          (False, py_print ErrorSavingStore (store_written w NotJson (partial_bytes w store))))"

subsection \<open>initialize\<close>

text \<open>The body of the inner \<^verbatim>\<open>for\<close>; the state is \<open>(hash_store, processed_files, world)\<close>.\<close>

definition init_file ::
  "hasher \<Rightarrow> path \<Rightarrow> (string \<times> json) list \<times> nat \<times> world \<Rightarrow> (string \<times> json) list \<times> nat \<times> world"
where
  "init_file H file_path st =
     (case st of (hash_store, processed_files, w) \<Rightarrow>
        (case compute_file_hash H w file_path of
           (None, w1) \<Rightarrow> (hash_store, processed_files, w1)
         | (Some file_hash, w1) \<Rightarrow>
             if file_hash \<noteq> []
             then (AList.update file_path (JStr file_hash) hash_store, processed_files + 1, w1)
             else (hash_store, processed_files, w1)))"

definition init_walk ::
  "hasher \<Rightarrow> (path \<times> string list) list \<Rightarrow> (string \<times> json) list \<times> nat \<times> world
     \<Rightarrow> (string \<times> json) list \<times> nat \<times> world"
where
  "init_walk H triples st =
     fold (\<lambda>(root, files). fold (\<lambda>file. init_file H (path_join root file)) files) triples st"

definition initialize :: "hasher \<Rightarrow> world \<Rightarrow> path \<Rightarrow> bool \<times> world" where
  "initialize H w directory =
     (if fs_kind w directory \<noteq> Directory
      then (False, py_print (NotValidDirectory directory) w)
      else (case init_walk H (fs_walk w directory) ([], 0, w) of
              (hash_store, processed_files, w1) \<Rightarrow>
                (case save_hash_store w1 (JObj hash_store) of
                   (True, w2) \<Rightarrow> (True, py_print (HashesStored processed_files) w2)
                 | (False, w2) \<Rightarrow> (False, w2))))"

subsection \<open>check_file\<close>

definition check_file :: "hasher \<Rightarrow> world \<Rightarrow> path \<Rightarrow> (exn + bool) \<times> world" where
  "check_file H w file_path =
     (if fs_kind w file_path \<noteq> Regular
      then (Inr False, py_print (NotValidFile file_path) w)
      else (case load_hash_store w of
              Inl e \<Rightarrow> (Inl e, w)
            | Inr hash_store \<Rightarrow>
                (case compute_file_hash H w file_path of
                   (current_hash, w1) \<Rightarrow>
                     (case py_contains hash_store file_path of
                        Inl e \<Rightarrow> (Inl e, w1)
                      | Inr False \<Rightarrow> (Inr False, py_print StatusNew w1)
                      | Inr True \<Rightarrow>
                          (case py_getitem hash_store file_path of
                             Inl e \<Rightarrow> (Inl e, w1)
                           | Inr stored \<Rightarrow>
                               if py_eq current_hash stored
                               then (Inr True, py_print StatusUnmodified w1)
                               else (Inr False, py_print StatusModified w1))))))"

subsection \<open>update_file\<close>

definition update_file :: "hasher \<Rightarrow> world \<Rightarrow> path \<Rightarrow> (exn + bool) \<times> world" where
  "update_file H w file_path =
     (if fs_kind w file_path \<noteq> Regular
      then (Inr False, py_print (NotValidFile file_path) w)
      else (case compute_file_hash H w file_path of
              (None, w1) \<Rightarrow> (Inr False, w1)
            | (Some current_hash, w1) \<Rightarrow>
                if current_hash = [] then (Inr False, w1)
                else (case load_hash_store w1 of
                        Inl e \<Rightarrow> (Inl e, w1)
                      | Inr hash_store \<Rightarrow>
                          (case py_setitem hash_store file_path (JStr current_hash) of
                             Inl e \<Rightarrow> (Inl e, w1)
                           | Inr hash_store' \<Rightarrow>
                               (case save_hash_store w1 hash_store' of
                                  (True, w2) \<Rightarrow> (Inr True, py_print HashUpdated w2)
                                | (False, w2) \<Rightarrow> (Inr False, w2))))))"

subsection \<open>check_directory\<close>

text \<open>
  The body of the inner \<^verbatim>\<open>for\<close>; the state is \<open>(modified_files, new_files)\<close> and the
  world. An exception ends both loops.
\<close>

definition check_dir_file ::
  "hasher \<Rightarrow> json \<Rightarrow> path \<Rightarrow> path list \<times> path list \<Rightarrow> world
     \<Rightarrow> (exn + path list \<times> path list) \<times> world"
where
  "check_dir_file H hash_store file_path acc w =
     (case acc of (modified_files, new_files) \<Rightarrow>
        (case compute_file_hash H w file_path of
           (current_hash, w1) \<Rightarrow>
             (case py_contains hash_store file_path of
                Inl e \<Rightarrow> (Inl e, w1)
              | Inr False \<Rightarrow> (Inr (modified_files, new_files @ [file_path]), w1)
              | Inr True \<Rightarrow>
                  (case py_getitem hash_store file_path of
                     Inl e \<Rightarrow> (Inl e, w1)
                   | Inr stored \<Rightarrow>
                       if \<not> py_eq current_hash stored
                       then (Inr (modified_files @ [file_path], new_files), w1)
                       else (Inr (modified_files, new_files), w1)))))"

fun check_dir_files ::
  "hasher \<Rightarrow> json \<Rightarrow> path \<Rightarrow> string list \<Rightarrow> path list \<times> path list \<Rightarrow> world
     \<Rightarrow> (exn + path list \<times> path list) \<times> world"
where
  "check_dir_files H hash_store root [] acc w = (Inr acc, w)"
| "check_dir_files H hash_store root (file # files) acc w =
     (case check_dir_file H hash_store (path_join root file) acc w of
        (Inl e, w1) \<Rightarrow> (Inl e, w1)
      | (Inr acc', w1) \<Rightarrow> check_dir_files H hash_store root files acc' w1)"

fun check_dir_walk ::
  "hasher \<Rightarrow> json \<Rightarrow> (path \<times> string list) list \<Rightarrow> path list \<times> path list \<Rightarrow> world
     \<Rightarrow> (exn + path list \<times> path list) \<times> world"
where
  "check_dir_walk H hash_store [] acc w = (Inr acc, w)"
| "check_dir_walk H hash_store ((root, files) # triples) acc w =
     (case check_dir_files H hash_store root files acc w of
        (Inl e, w1) \<Rightarrow> (Inl e, w1)
      | (Inr acc', w1) \<Rightarrow> check_dir_walk H hash_store triples acc' w1)"

text \<open>The prints after the loops.\<close>

definition report :: "path list \<Rightarrow> path list \<Rightarrow> line list" where
  "report modified_files new_files =
     (if modified_files = [] \<and> new_files = [] then [AllUnmodified]
      else (if modified_files \<noteq> [] then ModifiedHeader # map ListItem modified_files else [])
         @ (if new_files \<noteq> [] then NewHeader # map ListItem new_files else []))"

definition check_directory :: "hasher \<Rightarrow> world \<Rightarrow> path \<Rightarrow> (exn + bool) \<times> world" where
  "check_directory H w directory =
     (if fs_kind w directory \<noteq> Directory
      then (Inr False, py_print (NotValidDirectory directory) w)
      else (case load_hash_store w of
              Inl e \<Rightarrow> (Inl e, w)
            | Inr hash_store \<Rightarrow>
                (case check_dir_walk H hash_store (fs_walk w directory) ([], []) w of
                   (Inl e, w1) \<Rightarrow> (Inl e, w1)
                 | (Inr (modified_files, new_files), w1) \<Rightarrow>
                     (Inr (modified_files = [] \<and> new_files = []),
                      py_prints (report modified_files new_files) w1))))"

subsection \<open>The check command of main\<close>

text \<open>\<^verbatim>\<open>main\<close> drops what \<^verbatim>\<open>check_file\<close> and \<^verbatim>\<open>check_directory\<close> return.\<close>

definition main_check :: "hasher \<Rightarrow> world \<Rightarrow> path \<Rightarrow> (exn + unit) \<times> world" where
  "main_check H w p =
     (if fs_kind w p = Regular
      then (case check_file H w p of (r, w1) \<Rightarrow> (map_sum id (\<lambda>b. ()) r, w1))
      else if fs_kind w p = Directory
      then (case check_directory H w p of (r, w1) \<Rightarrow> (map_sum id (\<lambda>b. ()) r, w1))
      else (Inr (), py_print (NotFileOrDirectory p) w))"

subsection \<open>Notions used in the statements\<close>

text \<open>The value \<^verbatim>\<open>compute_file_hash\<close> returns for a path.\<close>

definition file_digest :: "hasher \<Rightarrow> world \<Rightarrow> path \<Rightarrow> string option" where
  "file_digest H w p = fst (compute_file_hash H w p)"

text \<open>The paths the two nested \<^verbatim>\<open>for\<close> loops visit, in order.\<close>

definition walk_paths :: "world \<Rightarrow> path \<Rightarrow> path list" where
  "walk_paths w d = concat (map (\<lambda>(root, files). map (path_join root) files) (fs_walk w d))"

text \<open>The lines \<^verbatim>\<open>compute_file_hash\<close> prints while a list of paths is hashed.\<close>

definition read_errors :: "world \<Rightarrow> path list \<Rightarrow> line list" where
  "read_errors w ps = map ErrorReadingFile (filter (\<lambda>p. fs_content w p = None) ps)"

text \<open>
  The two lists that the loops of \<^verbatim>\<open>check_directory\<close> build from a list of paths and the
  entries \<open>kvs\<close> of the loaded store, by the tests of the source.
\<close>

definition listed_new :: "(string \<times> json) list \<Rightarrow> path list \<Rightarrow> path list" where
  "listed_new kvs ps = filter (\<lambda>p. map_of kvs p = None) ps"

definition listed_modified ::
  "hasher \<Rightarrow> world \<Rightarrow> (string \<times> json) list \<Rightarrow> path list \<Rightarrow> path list"
where
  "listed_modified H w kvs ps =
     filter (\<lambda>p. case map_of kvs p of None \<Rightarrow> False | Some v \<Rightarrow> \<not> py_eq (file_digest H w p) v) ps"

text \<open>
  The spec's two lists for a directory check. A file that cannot be hashed is skipped; of
  the files that can be hashed, the new ones have no entry in the store and the modified
  ones have an entry that is not their digest.
\<close>

definition spec_new_paths :: "world \<Rightarrow> (string \<times> json) list \<Rightarrow> path list \<Rightarrow> path list" where
  "spec_new_paths w kvs ps = filter (\<lambda>p. fs_content w p \<noteq> None \<and> map_of kvs p = None) ps"

definition spec_modified_paths ::
  "hasher \<Rightarrow> world \<Rightarrow> (string \<times> json) list \<Rightarrow> path list \<Rightarrow> path list"
where
  "spec_modified_paths H w kvs ps =
     filter (\<lambda>p. case fs_content w p of
                   None \<Rightarrow> False
                 | Some bs \<Rightarrow> (case map_of kvs p of None \<Rightarrow> False | Some v \<Rightarrow> v \<noteq> JStr (H bs)))
       ps"

text \<open>A digest as the spec describes it: 64 lowercase hexadecimal characters.\<close>

definition is_digest :: "string \<Rightarrow> bool" where
  "is_digest s = (length s = 64 \<and> list_all (\<lambda>c. c \<in> set ''0123456789abcdef'') s)"

definition digest_value :: "json \<Rightarrow> bool" where
  "digest_value v = (case v of JStr d \<Rightarrow> is_digest d | _ \<Rightarrow> False)"

text \<open>
  The invariant of the persisted store: when the store file holds a JSON value, it is an
  object and each of its values is a digest.
\<close>

definition store_ok :: "world \<Rightarrow> bool" where
  "store_ok w =
     (case store_data w of
        Holds j \<Rightarrow> (case j of JObj kvs \<Rightarrow> list_all (\<lambda>kv. digest_value (snd kv)) kvs | _ \<Rightarrow> False)
      | _ \<Rightarrow> True)"

subsection \<open>Example worlds\<close>

text \<open>
  A stand-in for \<^verbatim>\<open>hexdigest\<close> in the examples: 64 hexadecimal characters that depend
  on the content only through the parity of its length.
\<close>

definition toy_hex :: hasher where
  "toy_hex bs = replicate 64 (if even (length bs) then CHR ''0'' else CHR ''1'')"

text \<open>A stand-in for the bytes of \<^verbatim>\<open>json.dump\<close> in the examples: one byte for each entry.\<close>

definition toy_dump :: "json \<Rightarrow> byte list" where
  "toy_dump j = (case j of JObj kvs \<Rightarrow> replicate (length kvs) 0 | _ \<Rightarrow> [])"

text \<open>
  A directory \<^verbatim>\<open>D\<close> with three files and a file \<^verbatim>\<open>a\<close> outside it. \<^verbatim>\<open>D/z.log\<close> cannot be
  read. The store tracks \<^verbatim>\<open>D/x.log\<close> and \<^verbatim>\<open>a\<close> with their current digest, \<^verbatim>\<open>D/y.log\<close> with
  the digest of an older content, and does not track \<^verbatim>\<open>D/z.log\<close>.
\<close>

definition demo_entries :: "(string \<times> json) list" where
  "demo_entries =
     [(''D/x.log'', JStr (toy_hex [65, 65, 65])),
      (''D/y.log'', JStr (toy_hex [])),
      (''a'', JStr (toy_hex [67]))]"

definition demo :: world where
  "demo =
     \<lparr>fs_kind = (\<lambda>p. if p = ''D'' then Directory
                     else if p \<in> set [''D/x.log'', ''D/y.log'', ''D/z.log'', ''a''] then Regular
                     else Neither),
      fs_content = (\<lambda>p. if p = ''D/x.log'' then Some [65, 65, 65]
                        else if p = ''D/y.log'' then Some [66, 66, 66]
                        else if p = ''a'' then Some [67]
                        else None),
      fs_walk = (\<lambda>p. if p = ''D'' then [(''D'', [''x.log'', ''y.log'', ''z.log''])] else []),
      fs_walk_created = (\<lambda>p. if p = ''D'' then [(''D'', [''x.log'', ''y.log'', ''z.log''])] else []),
      store_alias = (\<lambda>p. False),
      store_dir = DirOK,
      store_data = Holds (JObj demo_entries),
      store_readable = True,
      store_write = WriteOK,
      dump_bytes = toy_dump,
      partial_bytes = (\<lambda>j. []),
      stdout = []\<rparr>"

text \<open>
  In these worlds no path that a command is given names the store file. The same world
  on a first run, with a garbled store file, and with a store file that may not be read,
  that holds bytes that are not text, that cannot be opened for writing, and on a full
  disk.
\<close>

definition demo_first_run :: world where
  "demo_first_run = demo\<lparr>store_data := Missing\<rparr>"

definition demo_garbled :: world where
  "demo_garbled = demo\<lparr>store_data := NotJson\<rparr>"

definition demo_locked :: world where
  "demo_locked = demo\<lparr>store_readable := False\<rparr>"

definition demo_binary :: world where
  "demo_binary = demo\<lparr>store_data := Undecodable\<rparr>"

definition demo_read_only :: world where
  "demo_read_only = demo\<lparr>store_write := OpenFails\<rparr>"

definition demo_disk_full :: world where
  "demo_disk_full = demo\<lparr>store_write := WriteFails\<rparr>"

text \<open>A first run in which the store file, once created, may be written but not read.\<close>

definition demo_write_only :: world where
  "demo_write_only = demo\<lparr>store_data := Missing, store_readable := False\<rparr>"

text \<open>
  A first run where the home directory is no directory, a store file nested too deep, a
  store file with an over-long integer, and a store file that holds the JSON value
  \<^verbatim>\<open>null\<close>.
\<close>

definition demo_no_home :: world where
  "demo_no_home = demo\<lparr>store_dir := DirNotADirectory, store_data := Missing\<rparr>"

definition demo_too_deep :: world where
  "demo_too_deep = demo\<lparr>store_data := TooDeep\<rparr>"

definition demo_too_long :: world where
  "demo_too_long = demo\<lparr>store_data := TooLong\<rparr>"

definition demo_null_store :: world where
  "demo_null_store = demo\<lparr>store_data := Holds JNull\<rparr>"

text \<open>The world \<open>demo\<close> with a third file that can be read.\<close>

definition demo_readable :: world where
  "demo_readable =
     demo\<lparr>fs_content := (\<lambda>p. if p = ''D/x.log'' then Some [65, 65, 65]
                              else if p = ''D/y.log'' then Some [66, 66, 66]
                              else if p = ''D/z.log'' then Some [68, 68]
                              else if p = ''a'' then Some [67]
                              else None)\<rparr>"

text \<open>
  A world in which the path \<^verbatim>\<open>s\<close> names the store file, which holds an empty mapping.
\<close>

definition store_itself :: world where
  "store_itself =
     \<lparr>fs_kind = (\<lambda>p. if p = ''s'' then Regular else Neither),
      fs_content = (\<lambda>p. if p = ''s'' then Some (toy_dump (JObj [])) else None),
      fs_walk = (\<lambda>p. []),
      fs_walk_created = (\<lambda>p. []),
      store_alias = (\<lambda>p. p = ''s''),
      store_dir = DirOK,
      store_data = Holds (JObj []),
      store_readable = True,
      store_write = WriteOK,
      dump_bytes = toy_dump,
      partial_bytes = (\<lambda>j. []),
      stdout = []\<rparr>"

text \<open>A first run on a single file that exists and cannot be read.\<close>

definition lone_unreadable :: world where
  "lone_unreadable =
     \<lparr>fs_kind = (\<lambda>p. if p = ''f'' then Regular else Neither),
      fs_content = (\<lambda>p. None),
      fs_walk = (\<lambda>p. []),
      fs_walk_created = (\<lambda>p. []),
      store_alias = (\<lambda>p. False),
      store_dir = DirOK,
      store_data = Missing,
      store_readable = True,
      store_write = WriteOK,
      dump_bytes = toy_dump,
      partial_bytes = (\<lambda>j. []),
      stdout = []\<rparr>"

text \<open>A directory whose two files cannot be read; the store tracks the first one only.\<close>

definition two_unreadable :: world where
  "two_unreadable =
     \<lparr>fs_kind = (\<lambda>p. if p = ''D'' then Directory
                     else if p \<in> set [''D/x.log'', ''D/z.log''] then Regular
                     else Neither),
      fs_content = (\<lambda>p. None),
      fs_walk = (\<lambda>p. if p = ''D'' then [(''D'', [''x.log'', ''z.log''])] else []),
      fs_walk_created = (\<lambda>p. if p = ''D'' then [(''D'', [''x.log'', ''z.log''])] else []),
      store_alias = (\<lambda>p. False),
      store_dir = DirOK,
      store_data = Holds (JObj [(''D/x.log'', JStr (toy_hex [65, 65, 65]))]),
      store_readable = True,
      store_write = WriteOK,
      dump_bytes = toy_dump,
      partial_bytes = (\<lambda>j. []),
      stdout = []\<rparr>"

section \<open>Properties of the functions\<close>

subsection \<open>Hashing\<close>

text \<open>The chunked loop feeds the digest object every byte of the file, in order.\<close>

lemma read_chunks_all: "read_chunks fed rest = fed @ rest"
proof (induction fed rest rule: read_chunks.induct)
  case (1 fed rest)
  show ?case
  proof (cases "take 65536 rest = []")
    case True
    then have "rest = []" by (simp add: take_eq_Nil)
    with True show ?thesis by (simp add: read_chunks.simps)
  next
    case False
    have "read_chunks fed rest = read_chunks (fed @ take 65536 rest) (drop 65536 rest)"
      using False by (subst read_chunks.simps) simp
    also have "\<dots> = (fed @ take 65536 rest) @ drop 65536 rest"
      using "1.IH" [OF False] .
    finally show ?thesis by simp
  qed
qed

lemma compute_file_hash_conv:
  "compute_file_hash H w p =
     (case fs_content w p of
        None \<Rightarrow> (None, w\<lparr>stdout := stdout w @ [ErrorReadingFile p]\<rparr>)
      | Some bs \<Rightarrow> (Some (H bs), w))"
  by (simp add: compute_file_hash_def read_chunks_all py_print_def split: option.splits)

lemma file_digest_conv: "file_digest H w p = map_option H (fs_content w p)"
  by (simp add: file_digest_def compute_file_hash_conv split: option.splits)

lemma file_digest_stdout [simp]: "file_digest H (w\<lparr>stdout := s\<rparr>) p = file_digest H w p"
  by (simp add: file_digest_conv)

lemma read_errors_stdout [simp]: "read_errors (w\<lparr>stdout := s\<rparr>) ps = read_errors w ps"
  by (simp add: read_errors_def)

lemma listed_modified_stdout [simp]:
  "listed_modified H (w\<lparr>stdout := s\<rparr>) kvs ps = listed_modified H w kvs ps"
  by (simp add: listed_modified_def cong: option.case_cong)

lemma listed_new_append:
  "listed_new kvs (ps @ qs) = listed_new kvs ps @ listed_new kvs qs"
  by (simp add: listed_new_def)

lemma listed_modified_append:
  "listed_modified H w kvs (ps @ qs) =
     listed_modified H w kvs ps @ listed_modified H w kvs qs"
  by (simp add: listed_modified_def)

lemma read_errors_append: "read_errors w (ps @ qs) = read_errors w ps @ read_errors w qs"
  by (simp add: read_errors_def)

subsection \<open>The store\<close>

lemma load_stdout [simp]: "load_hash_store (w\<lparr>stdout := s\<rparr>) = load_hash_store w"
  by (simp add: load_hash_store_def open_and_parse_def split: store_data.splits dir_state.splits)

lemma store_written_fields [simp]:
  "store_data (store_written w d bs) = d"
  "store_readable (store_written w d bs) = store_readable w"
  "store_dir (store_written w d bs) = store_dir w"
  "store_write (store_written w d bs) = store_write w"
  "store_alias (store_written w d bs) = store_alias w"
  "stdout (store_written w d bs) = stdout w"
  by (simp_all add: store_written_def)

lemma store_written_kind:
  "fs_kind (store_written w d bs) p = (if store_alias w p then Regular else fs_kind w p)"
  by (simp add: store_written_def)

lemma store_written_content:
  "fs_content (store_written w d bs) p =
     (if store_alias w p then (if store_readable w then Some bs else None) else fs_content w p)"
  by (simp add: store_written_def)

lemma store_written_stdout:
  "store_written (w\<lparr>stdout := s\<rparr>) d bs = (store_written w d bs)\<lparr>stdout := s\<rparr>"
  by (simp add: store_written_def cong: if_cong)

lemma store_written_no_alias:
  assumes "\<And>p. \<not> store_alias w p" and "store_data w \<noteq> Missing \<or> fs_walk_created w = fs_walk w"
  shows "store_written w d bs = w\<lparr>store_data := d\<rparr>"
  using assms by (auto simp add: store_written_def)

lemma load_after_save:
  assumes "store_readable w" and "store_dir w = DirOK"
  shows "load_hash_store (store_written w (Holds j) bs) = Inr j"
  using assms by (simp add: load_hash_store_def open_and_parse_def)

lemma load_empty:
  assumes "store_dir w = DirOK"
    and "store_data w = Missing \<or> (store_readable w \<and> store_data w = NotJson)"
  shows "load_hash_store w = Inr (JObj [])"
  using assms by (auto simp add: load_hash_store_def open_and_parse_def)

lemma store_ok_same:
  assumes "store_data w' = store_data w"
  shows "store_ok w' = store_ok w"
  by (simp add: store_ok_def assms)

lemma store_ok_load:
  assumes "store_ok w" and "load_hash_store w = Inr (JObj kvs)"
  shows "list_all (\<lambda>kv. digest_value (snd kv)) kvs"
  using assms
  by (cases "store_data w"; cases "store_dir w")
     (auto simp add: store_ok_def load_hash_store_def open_and_parse_def split: if_splits)

lemma list_all_update:
  assumes "list_all Q al" and "Q (k, v)"
  shows "list_all Q (AList.update k v al)"
  using assms by (induction al) auto

subsection \<open>check_file\<close>

lemma check_file_obj:
  assumes "fs_kind w p = Regular" and "load_hash_store w = Inr (JObj kvs)"
  shows "check_file H w p =
     (case map_of kvs p of
        None \<Rightarrow> (Inr False, py_print StatusNew (snd (compute_file_hash H w p)))
      | Some stored \<Rightarrow>
          if py_eq (file_digest H w p) stored
          then (Inr True, py_print StatusUnmodified (snd (compute_file_hash H w p)))
          else (Inr False, py_print StatusModified (snd (compute_file_hash H w p))))"
  using assms
  by (simp add: check_file_def file_digest_def split: prod.splits option.splits)

lemma check_file_frame: "(snd (check_file H w p))\<lparr>stdout := stdout w\<rparr> = w"
  by (simp add: check_file_def compute_file_hash_conv py_print_def
      split: sum.splits option.splits bool.splits)

subsection \<open>update_file\<close>

text \<open>All the runs of \<^verbatim>\<open>update_file\<close>.\<close>

lemma update_file_conv:
  "update_file H w p =
     (if fs_kind w p \<noteq> Regular then (Inr False, py_print (NotValidFile p) w)
      else (case fs_content w p of
              None \<Rightarrow> (Inr False, py_print (ErrorReadingFile p) w)
            | Some bs \<Rightarrow>
                if H bs = [] then (Inr False, w)
                else (case load_hash_store w of
                        Inl e \<Rightarrow> (Inl e, w)
                      | Inr j \<Rightarrow>
                          (case py_setitem j p (JStr (H bs)) of
                             Inl e \<Rightarrow> (Inl e, w)
                           | Inr j' \<Rightarrow>
                               (case write_outcome w of
                                  WriteOK \<Rightarrow>
                                    (Inr True,
                                     py_print HashUpdated
                                       (store_written w (Holds j') (dump_bytes w j')))
                                | OpenFails \<Rightarrow> (Inr False, py_print ErrorSavingStore w)
                                | WriteFails \<Rightarrow>
                                    (Inr False,
                                     py_print ErrorSavingStore
                                       (store_written w NotJson (partial_bytes w j'))))))))"
  by (simp add: update_file_def compute_file_hash_conv save_hash_store_def py_print_def
      split: option.splits sum.splits write_env.splits)

lemma update_file_success:
  assumes "update_file H w p = (Inr True, w')"
  shows "\<exists>kvs bs. fs_kind w p = Regular \<and> fs_content w p = Some bs \<and> H bs \<noteq> []
           \<and> load_hash_store w = Inr (JObj kvs) \<and> write_outcome w = WriteOK
           \<and> w' = py_print HashUpdated
                    (store_written w (Holds (JObj (AList.update p (JStr (H bs)) kvs)))
                       (dump_bytes w (JObj (AList.update p (JStr (H bs)) kvs))))"
proof -
  from assms have k: "fs_kind w p = Regular"
    by (auto simp add: update_file_conv split: if_splits)
  from assms k obtain bs where bs: "fs_content w p = Some bs" "H bs \<noteq> []"
    by (cases "fs_content w p") (auto simp add: update_file_conv split: if_splits)
  from assms k bs obtain j where j: "load_hash_store w = Inr j"
    by (cases "load_hash_store w") (auto simp add: update_file_conv)
  from assms k bs j obtain kvs where kvs: "j = JObj kvs"
    by (cases j) (auto simp add: update_file_conv)
  from assms k bs j kvs have wr: "write_outcome w = WriteOK"
    by (cases "write_outcome w") (auto simp add: update_file_conv)
  from assms k bs j kvs wr
  have "w' = py_print HashUpdated
               (store_written w (Holds (JObj (AList.update p (JStr (H bs)) kvs)))
                  (dump_bytes w (JObj (AList.update p (JStr (H bs)) kvs))))"
    by (auto simp add: update_file_conv)
  with k bs j kvs wr show ?thesis by blast
qed

text \<open>
  A run of \<^verbatim>\<open>update_file\<close> that does not succeed changes nothing but the output, unless
  it got as far as the write and the write failed after the file was opened.
\<close>

lemma update_file_failure:
  assumes "fst (update_file H w p) \<noteq> Inr True"
  shows "(snd (update_file H w p))\<lparr>stdout := stdout w\<rparr> = w
     \<or> (fs_kind w p = Regular \<and> write_outcome w = WriteFails
         \<and> store_data (snd (update_file H w p)) = NotJson
         \<and> (\<exists>bs kvs. fs_content w p = Some bs \<and> load_hash_store w = Inr (JObj kvs)))"
proof (cases "fs_kind w p = Regular")
  case False
  then show ?thesis by (simp add: update_file_conv py_print_def)
next
  case k: True
  show ?thesis
  proof (cases "fs_content w p")
    case None
    with k show ?thesis by (simp add: update_file_conv py_print_def)
  next
    case (Some bs)
    show ?thesis
    proof (cases "H bs = []")
      case True
      with k Some show ?thesis by (simp add: update_file_conv)
    next
      case hb: False
      show ?thesis
      proof (cases "load_hash_store w")
        case (Inl e)
        with k Some hb show ?thesis by (simp add: update_file_conv)
      next
        case (Inr j)
        show ?thesis
        proof (cases "\<exists>kvs. j = JObj kvs")
          case False
          with k Some hb Inr show ?thesis by (cases j) (simp_all add: update_file_conv)
        next
          case True
          then obtain kvs where kvs: "j = JObj kvs" by blast
          from assms k Some hb Inr kvs show ?thesis
            by (cases "write_outcome w") (simp_all add: update_file_conv py_print_def)
        qed
      qed
    qed
  qed
qed

text \<open>What \<^verbatim>\<open>update_file\<close> can leave in the store file.\<close>

lemma update_file_store:
  "store_data (snd (update_file H w p)) = store_data w
   \<or> store_data (snd (update_file H w p)) = NotJson
   \<or> (\<exists>kvs bs. load_hash_store w = Inr (JObj kvs) \<and> fs_content w p = Some bs
         \<and> store_data (snd (update_file H w p))
             = Holds (JObj (AList.update p (JStr (H bs)) kvs)))"
proof (cases "fst (update_file H w p) = Inr True")
  case True
  then have "update_file H w p = (Inr True, snd (update_file H w p))"
    by (simp add: prod_eq_iff)
  from update_file_success [OF this] obtain kvs bs where
    "load_hash_store w = Inr (JObj kvs)" "fs_content w p = Some bs"
    "snd (update_file H w p) = py_print HashUpdated
        (store_written w (Holds (JObj (AList.update p (JStr (H bs)) kvs)))
           (dump_bytes w (JObj (AList.update p (JStr (H bs)) kvs))))"
    by blast
  then show ?thesis by (simp add: py_print_def)
next
  case False
  from update_file_failure [OF False] show ?thesis
  proof
    assume "(snd (update_file H w p))\<lparr>stdout := stdout w\<rparr> = w"
    then have "store_data ((snd (update_file H w p))\<lparr>stdout := stdout w\<rparr>) = store_data w"
      by simp
    then show ?thesis by simp
  next
    assume "fs_kind w p = Regular \<and> write_outcome w = WriteFails
         \<and> store_data (snd (update_file H w p)) = NotJson
         \<and> (\<exists>bs kvs. fs_content w p = Some bs \<and> load_hash_store w = Inr (JObj kvs))"
    then show ?thesis by simp
  qed
qed

subsection \<open>check_directory\<close>

lemma check_dir_file_obj:
  "check_dir_file H (JObj kvs) p (m, n) w =
     (Inr (m @ listed_modified H w kvs [p], n @ listed_new kvs [p]),
      w\<lparr>stdout := stdout w @ read_errors w [p]\<rparr>)"
  by (cases "fs_content w p"; cases "map_of kvs p")
     (simp_all add: check_dir_file_def compute_file_hash_conv file_digest_conv
        listed_modified_def listed_new_def read_errors_def)

lemma check_dir_files_obj:
  "check_dir_files H (JObj kvs) root files (m, n) w =
     (Inr (m @ listed_modified H w kvs (map (path_join root) files),
           n @ listed_new kvs (map (path_join root) files)),
      w\<lparr>stdout := stdout w @ read_errors w (map (path_join root) files)\<rparr>)"
proof (induction files arbitrary: m n w)
  case Nil
  show ?case by (simp add: listed_modified_def listed_new_def read_errors_def)
next
  case (Cons f files)
  have first: "map (path_join root) (f # files) = [path_join root f] @ map (path_join root) files"
    by simp
  show ?case
    unfolding first listed_new_append listed_modified_append read_errors_append
    by (simp add: check_dir_file_obj Cons.IH)
qed

lemma check_dir_walk_obj:
  "check_dir_walk H (JObj kvs) triples (m, n) w =
     (Inr (m @ listed_modified H w kvs
                 (concat (map (\<lambda>(root, files). map (path_join root) files) triples)),
           n @ listed_new kvs
                 (concat (map (\<lambda>(root, files). map (path_join root) files) triples))),
      w\<lparr>stdout := stdout w @ read_errors w
                 (concat (map (\<lambda>(root, files). map (path_join root) files) triples))\<rparr>)"
proof (induction triples arbitrary: m n w)
  case Nil
  show ?case by (simp add: listed_modified_def listed_new_def read_errors_def)
next
  case (Cons t triples)
  obtain root files where t: "t = (root, files)" by (cases t)
  show ?case
    by (simp add: t check_dir_files_obj Cons.IH listed_new_append listed_modified_append
        read_errors_append)
qed

lemma check_directory_obj:
  assumes "fs_kind w d = Directory" and "load_hash_store w = Inr (JObj kvs)"
  shows "check_directory H w d =
     (Inr (listed_modified H w kvs (walk_paths w d) = []
           \<and> listed_new kvs (walk_paths w d) = []),
      w\<lparr>stdout := stdout w @ read_errors w (walk_paths w d)
         @ (if listed_modified H w kvs (walk_paths w d) = []
               \<and> listed_new kvs (walk_paths w d) = []
            then [AllUnmodified]
            else (if listed_modified H w kvs (walk_paths w d) \<noteq> []
                  then ModifiedHeader # map ListItem (listed_modified H w kvs (walk_paths w d))
                  else [])
               @ (if listed_new kvs (walk_paths w d) \<noteq> []
                  then NewHeader # map ListItem (listed_new kvs (walk_paths w d))
                  else []))\<rparr>)"
  using assms
  by (simp add: check_directory_def check_dir_walk_obj walk_paths_def report_def py_prints_def)

text \<open>Whatever the store holds, a directory check changes nothing but the output.\<close>

lemma check_dir_file_frame:
  "(snd (check_dir_file H j p acc w))\<lparr>stdout := s\<rparr> = w\<lparr>stdout := s\<rparr>"
  by (cases acc)
     (simp add: check_dir_file_def compute_file_hash_conv
        split: sum.splits option.splits bool.splits)

lemma check_dir_files_frame:
  "(snd (check_dir_files H j root files acc w))\<lparr>stdout := s\<rparr> = w\<lparr>stdout := s\<rparr>"
proof (induction files arbitrary: acc w)
  case Nil
  show ?case by simp
next
  case (Cons f files)
  obtain r w1 where step: "check_dir_file H j (path_join root f) acc w = (r, w1)"
    by (cases "check_dir_file H j (path_join root f) acc w")
  have w1: "w1\<lparr>stdout := s\<rparr> = w\<lparr>stdout := s\<rparr>"
    using check_dir_file_frame [where H = H and j = j and p = "path_join root f"
        and acc = acc and w = w and s = s]
    by (simp add: step)
  show ?case
  proof (cases r)
    case (Inl e)
    then show ?thesis by (simp add: step w1)
  next
    case (Inr acc')
    then show ?thesis by (simp add: step Cons.IH w1)
  qed
qed

lemma check_dir_walk_frame:
  "(snd (check_dir_walk H j triples acc w))\<lparr>stdout := s\<rparr> = w\<lparr>stdout := s\<rparr>"
proof (induction triples arbitrary: acc w)
  case Nil
  show ?case by simp
next
  case (Cons t triples)
  obtain root files where t: "t = (root, files)" by (cases t)
  obtain r w1 where step: "check_dir_files H j root files acc w = (r, w1)"
    by (cases "check_dir_files H j root files acc w")
  have w1: "w1\<lparr>stdout := s\<rparr> = w\<lparr>stdout := s\<rparr>"
    using check_dir_files_frame [where H = H and j = j and root = root and files = files
        and acc = acc and w = w and s = s]
    by (simp add: step)
  show ?case
  proof (cases r)
    case (Inl e)
    then show ?thesis by (simp add: t step w1)
  next
    case (Inr acc')
    then show ?thesis by (simp add: t step Cons.IH w1)
  qed
qed

lemma check_directory_frame: "(snd (check_directory H w d))\<lparr>stdout := stdout w\<rparr> = w"
proof (cases "fs_kind w d = Directory")
  case False
  then show ?thesis by (simp add: check_directory_def py_print_def)
next
  case True
  show ?thesis
  proof (cases "load_hash_store w")
    case (Inl e)
    with True show ?thesis by (simp add: check_directory_def)
  next
    case (Inr j)
    obtain r w1 where walk: "check_dir_walk H j (fs_walk w d) ([], []) w = (r, w1)"
      by (cases "check_dir_walk H j (fs_walk w d) ([], []) w")
    have w1: "w1\<lparr>stdout := stdout w\<rparr> = w"
      using check_dir_walk_frame [where H = H and j = j and triples = "fs_walk w d"
          and acc = "([], [])" and w = w and s = "stdout w"]
      by (simp add: walk)
    show ?thesis
      using True Inr walk w1
      by (cases r) (auto simp add: check_directory_def py_prints_def)
  qed
qed

lemma main_check_frame: "(snd (main_check H w p))\<lparr>stdout := stdout w\<rparr> = w"
proof -
  have "(snd (case check_file H w p of (r, w1) \<Rightarrow> (map_sum id (\<lambda>b. ()) r, w1)))
          = snd (check_file H w p)"
    by (simp split: prod.splits)
  moreover have "(snd (case check_directory H w p of (r, w1) \<Rightarrow> (map_sum id (\<lambda>b. ()) r, w1)))
          = snd (check_directory H w p)"
    by (simp split: prod.splits)
  ultimately show ?thesis
    by (simp add: main_check_def check_file_frame check_directory_frame py_print_def)
qed

subsection \<open>initialize\<close>

lemma init_walk_fold:
  "init_walk H triples st =
     fold (init_file H) (concat (map (\<lambda>(root, files). map (path_join root) files) triples)) st"
  unfolding init_walk_def
proof (induction triples arbitrary: st)
  case Nil
  show ?case by simp
next
  case (Cons t triples)
  obtain root files where t: "t = (root, files)" by (cases t)
  have "fold (\<lambda>f. init_file H (path_join root f)) files st
          = fold (init_file H) (map (path_join root) files) st"
    by (simp add: fold_map comp_def)
  then show ?case by (simp add: t Cons.IH)
qed

lemma init_file_conv:
  "init_file H p (hs, n, w) =
     (case fs_content w p of
        None \<Rightarrow> (hs, n, w\<lparr>stdout := stdout w @ [ErrorReadingFile p]\<rparr>)
      | Some bs \<Rightarrow> if H bs \<noteq> [] then (AList.update p (JStr (H bs)) hs, n + 1, w) else (hs, n, w))"
  by (simp add: init_file_def compute_file_hash_conv split: option.splits)

lemma init_loop_world:
  "snd (snd (fold (init_file H) ps (hs, n, w))) = w\<lparr>stdout := stdout w @ read_errors w ps\<rparr>"
proof (induction ps arbitrary: hs n w)
  case Nil
  show ?case by (simp add: read_errors_def)
next
  case (Cons p ps)
  show ?case
    by (cases "fs_content w p") (simp_all add: init_file_conv Cons.IH read_errors_def)
qed

lemma init_loop_map:
  "map_of (fst (fold (init_file H) ps (hs, n, w))) q =
     (if q \<in> set ps
      then (case file_digest H w q of
              None \<Rightarrow> map_of hs q
            | Some h \<Rightarrow> if h = [] then map_of hs q else Some (JStr h))
      else map_of hs q)"
proof (induction ps arbitrary: hs n w)
  case Nil
  show ?case by simp
next
  case (Cons p ps)
  show ?case
  proof (cases "fs_content w p")
    case None
    then show ?thesis
      by (simp add: init_file_conv Cons.IH file_digest_conv)
  next
    case (Some bs)
    show ?thesis
    proof (cases "H bs = []")
      case True
      with Some show ?thesis
        by (simp add: init_file_conv Cons.IH file_digest_conv)
    next
      case False
      with Some show ?thesis
        by (auto simp add: init_file_conv Cons.IH file_digest_conv update_conv'
            split: option.splits)
    qed
  qed
qed

lemma init_loop_all:
  assumes "list_all Q hs"
    and "\<And>p bs. fs_content w p = Some bs \<Longrightarrow> H bs \<noteq> [] \<Longrightarrow> Q (p, JStr (H bs))"
  shows "list_all Q (fst (fold (init_file H) ps (hs, n, w)))"
  using assms
proof (induction ps arbitrary: hs n w)
  case Nil
  then show ?case by simp
next
  case (Cons p ps)
  show ?case
  proof (cases "fs_content w p")
    case None
    have "list_all Q (fst (fold (init_file H) ps
            (hs, n, w\<lparr>stdout := stdout w @ [ErrorReadingFile p]\<rparr>)))"
      by (rule Cons.IH [OF Cons.prems(1)]) (simp add: Cons.prems(2))
    with None show ?thesis by (simp add: init_file_conv)
  next
    case (Some bs)
    show ?thesis
    proof (cases "H bs = []")
      case True
      with Some show ?thesis
        using Cons.IH [OF Cons.prems(1), of w] Cons.prems(2) by (simp add: init_file_conv)
    next
      case False
      have "list_all Q (AList.update p (JStr (H bs)) hs)"
        by (rule list_all_update [OF Cons.prems(1)]) (rule Cons.prems(2) [OF Some False])
      then have "list_all Q (fst (fold (init_file H) ps
              (AList.update p (JStr (H bs)) hs, n + 1, w)))"
        by (rule Cons.IH) (rule Cons.prems(2))
      with Some False show ?thesis by (simp add: init_file_conv)
    qed
  qed
qed

lemma initialize_conv:
  assumes "fs_kind w d = Directory"
  shows "initialize H w d =
     (case write_outcome w of
        WriteOK \<Rightarrow>
          (True,
           (store_written w
              (Holds (JObj (fst (fold (init_file H) (walk_paths w d) ([], 0, w)))))
              (dump_bytes w (JObj (fst (fold (init_file H) (walk_paths w d) ([], 0, w))))))
            \<lparr>stdout := stdout w @ read_errors w (walk_paths w d)
               @ [HashesStored (fst (snd (fold (init_file H) (walk_paths w d) ([], 0, w))))]\<rparr>)
      | OpenFails \<Rightarrow>
          (False, w\<lparr>stdout := stdout w @ read_errors w (walk_paths w d) @ [ErrorSavingStore]\<rparr>)
      | WriteFails \<Rightarrow>
          (False,
           (store_written w NotJson
              (partial_bytes w (JObj (fst (fold (init_file H) (walk_paths w d) ([], 0, w))))))
            \<lparr>stdout := stdout w @ read_errors w (walk_paths w d) @ [ErrorSavingStore]\<rparr>))"
proof -
  obtain hs n w1 where f: "fold (init_file H) (walk_paths w d) ([], 0, w) = (hs, n, w1)"
    by (cases "fold (init_file H) (walk_paths w d) ([], 0, w)")
  have w1: "w1 = w\<lparr>stdout := stdout w @ read_errors w (walk_paths w d)\<rparr>"
    using init_loop_world [of H "walk_paths w d" "[]" 0 w] by (simp add: f)
  have i: "init_walk H (fs_walk w d) ([], 0, w) = (hs, n, w1)"
    by (simp add: init_walk_fold f [unfolded walk_paths_def])
  have o: "write_outcome w1 = write_outcome w" by (simp add: w1 write_outcome_def)
  show ?thesis
    by (cases "write_outcome w")
       (simp_all add: initialize_def assms i f save_hash_store_def o py_print_def,
        simp_all add: w1 store_written_stdout)
qed

lemma initialize_success:
  assumes "initialize H w d = (True, w')"
  shows "fs_kind w d = Directory \<and> write_outcome w = WriteOK
     \<and> store_data w' = Holds (JObj (fst (fold (init_file H) (walk_paths w d) ([], 0, w))))
     \<and> store_readable w' = store_readable w \<and> store_dir w' = store_dir w
     \<and> (fs_kind w a = Regular \<longrightarrow> fs_kind w' a = Regular)"
proof -
  from assms have k: "fs_kind w d = Directory"
    by (auto simp add: initialize_def split: if_splits)
  from assms have wr: "write_outcome w = WriteOK"
    by (cases "write_outcome w") (auto simp add: initialize_conv [OF k])
  from assms show ?thesis
    by (auto simp add: initialize_conv [OF k] wr k store_written_kind)
qed

subsection \<open>The lists of the loops and the lists of the spec\<close>

lemma py_eq_Some: "py_eq (Some h) v = (v = JStr h)"
  by (cases v) auto

lemma listed_new_hashable:
  "filter (\<lambda>p. fs_content w p \<noteq> None) (listed_new kvs ps) = spec_new_paths w kvs ps"
  by (auto simp add: listed_new_def spec_new_paths_def intro: filter_cong)

lemma listed_modified_hashable:
  "filter (\<lambda>p. fs_content w p \<noteq> None) (listed_modified H w kvs ps)
     = spec_modified_paths H w kvs ps"
  unfolding listed_modified_def spec_modified_paths_def filter_filter
  by (rule filter_cong) (auto simp add: file_digest_conv py_eq_Some split: option.splits)

lemma listed_subset:
  "set (listed_new kvs ps) \<subseteq> set ps" "set (listed_modified H w kvs ps) \<subseteq> set ps"
  by (auto simp add: listed_new_def listed_modified_def)

subsection \<open>The example worlds evaluated\<close>

lemma toy_hex_digest: "is_digest (toy_hex bs)"
  by (simp add: is_digest_def toy_hex_def list_all_iff)

lemma toy_hex_nonempty [simp]: "toy_hex bs \<noteq> []"
  by (simp add: toy_hex_def)

lemma demo_walk: "walk_paths demo ''D'' = [''D/x.log'', ''D/y.log'', ''D/z.log'']"
  by (simp add: walk_paths_def demo_def path_join_def)

lemma demo_load: "load_hash_store demo = Inr (JObj demo_entries)"
  by (simp add: demo_def load_hash_store_def open_and_parse_def)

lemma demo_modified:
  "listed_modified toy_hex demo demo_entries [''D/x.log'', ''D/y.log'', ''D/z.log'']
     = [''D/y.log'']"
  by (simp add: listed_modified_def file_digest_conv demo_def demo_entries_def toy_hex_def)

lemma demo_new:
  "listed_new demo_entries [''D/x.log'', ''D/y.log'', ''D/z.log''] = [''D/z.log'']"
  by (simp add: listed_new_def demo_entries_def)

lemma demo_errors:
  "read_errors demo [''D/x.log'', ''D/y.log'', ''D/z.log''] = [ErrorReadingFile ''D/z.log'']"
  by (simp add: read_errors_def demo_def)

lemma demo_update:
  "update_file toy_hex demo ''D/y.log'' =
     (Inr True,
      demo\<lparr>store_data := Holds (JObj [(''D/x.log'', JStr (toy_hex [65, 65, 65])),
                                       (''D/y.log'', JStr (toy_hex [66, 66, 66])),
                                       (''a'', JStr (toy_hex [67]))]),
           stdout := [HashUpdated]\<rparr>)"
proof -
  have k: "fs_kind demo ''D/y.log'' = Regular"
    and c: "fs_content demo ''D/y.log'' = Some [66, 66, 66]"
    and o: "write_outcome demo = WriteOK" and s: "stdout demo = []"
    by (simp_all add: demo_def write_outcome_def)
  have n: "store_written demo d bs = demo\<lparr>store_data := d\<rparr>" for d bs
    by (rule store_written_no_alias) (simp_all add: demo_def)
  show ?thesis
    by (simp add: update_file_conv k c demo_load o n py_print_def s) (simp add: demo_entries_def)
qed

lemma demo_init_loop:
  "fold (init_file toy_hex) [''D/x.log'', ''D/y.log'', ''D/z.log''] ([], 0, demo) =
     ([(''D/x.log'', JStr (toy_hex [65, 65, 65])), (''D/y.log'', JStr (toy_hex [66, 66, 66]))],
      2, demo\<lparr>stdout := [ErrorReadingFile ''D/z.log'']\<rparr>)"
  by (simp add: init_file_conv demo_def toy_hex_def)

lemma demo_initialize:
  "initialize toy_hex demo ''D'' =
     (True,
      demo\<lparr>store_data := Holds (JObj [(''D/x.log'', JStr (toy_hex [65, 65, 65])),
                                       (''D/y.log'', JStr (toy_hex [66, 66, 66]))]),
           stdout := [ErrorReadingFile ''D/z.log'', HashesStored 2]\<rparr>)"
proof -
  have k: "fs_kind demo ''D'' = Directory" by (simp add: demo_def)
  have o: "write_outcome demo = WriteOK" and s: "stdout demo = []"
    by (simp_all add: demo_def write_outcome_def)
  have n: "store_written demo d bs = demo\<lparr>store_data := d\<rparr>" for d bs
    by (rule store_written_no_alias) (simp_all add: demo_def)
  show ?thesis
    unfolding initialize_conv [OF k] demo_walk demo_init_loop demo_errors o s n by simp
qed

lemma demo_readable_walk:
  "walk_paths demo_readable ''D'' = [''D/x.log'', ''D/y.log'', ''D/z.log'']"
  by (simp add: walk_paths_def demo_readable_def demo_def path_join_def)

lemma demo_readable_load: "load_hash_store demo_readable = Inr (JObj demo_entries)"
  by (simp add: demo_readable_def demo_def load_hash_store_def open_and_parse_def)

lemma demo_readable_lists:
  "listed_modified toy_hex demo_readable demo_entries [''D/x.log'', ''D/y.log'', ''D/z.log'']
     = [''D/y.log'']"
  "listed_new demo_entries [''D/x.log'', ''D/y.log'', ''D/z.log''] = [''D/z.log'']"
  "read_errors demo_readable [''D/x.log'', ''D/y.log'', ''D/z.log''] = []"
  by (simp_all add: listed_modified_def listed_new_def read_errors_def file_digest_conv
      demo_readable_def demo_def demo_entries_def toy_hex_def)


section \<open>The claims\<close>

subsection \<open>C1: round trip of update and check\<close>

text \<open>
  Claim C1, as amended: for every regular file \<open>f\<close> that is not the store file itself,
  when \<^verbatim>\<open>update(f)\<close> reports success and the store file may be read, \<^verbatim>\<open>check(f)\<close> run
  right after it (the bytes of \<open>f\<close> unchanged) prints "Status: Unmodified" and returns
  success.
\<close>

theorem update_then_check:
  assumes "update_file H w f = (Inr True, w')" and "store_readable w"
    and "\<not> store_alias w f"
  shows "check_file H w' f = (Inr True, py_print StatusUnmodified w')"
proof -
  from update_file_success [OF assms(1)] obtain kvs bs where
    k: "fs_kind w f = Regular" and bs: "fs_content w f = Some bs" and
    o: "write_outcome w = WriteOK" and
    w': "w' = py_print HashUpdated
               (store_written w (Holds (JObj (AList.update f (JStr (H bs)) kvs)))
                  (dump_bytes w (JObj (AList.update f (JStr (H bs)) kvs))))"
    by blast
  from o have d: "store_dir w = DirOK"
    by (simp add: write_outcome_def split: if_splits)
  have l: "load_hash_store w' = Inr (JObj (AList.update f (JStr (H bs)) kvs))"
    unfolding w' py_print_def load_stdout using assms(2) d by (rule load_after_save)
  have c: "compute_file_hash H w' f = (Some (H bs), w')"
    using bs assms(3) by (simp add: w' compute_file_hash_conv py_print_def store_written_content)
  have kk: "fs_kind w' f = Regular"
    using k by (simp add: w' py_print_def store_written_kind)
  show ?thesis
    by (simp add: check_file_def kk l c update_conv')
qed

theorem update_then_check_witness:
  "fst (update_file toy_hex demo ''D/y.log'') = Inr True \<and> store_readable demo
   \<and> \<not> store_alias demo ''D/y.log''
   \<and> fst (check_file toy_hex (snd (update_file toy_hex demo ''D/y.log'')) ''D/y.log'') = Inr True
   \<and> stdout (snd (check_file toy_hex (snd (update_file toy_hex demo ''D/y.log'')) ''D/y.log''))
       = [HashUpdated, StatusUnmodified]"
proof -
  have r: "store_readable demo" and a: "\<not> store_alias demo ''D/y.log''"
    by (simp_all add: demo_def)
  show ?thesis
    using update_then_check [OF demo_update r a]
    by (simp add: demo_update r a py_print_def)
qed

text \<open>
  The claim as first stated, for every existing regular file, fails on a file that cannot
  be read: \<^verbatim>\<open>update\<close> returns failure without writing, and \<^verbatim>\<open>check\<close> reports a new file.
  It fails when \<^verbatim>\<open>update\<close> creates a store file that may not be read: \<^verbatim>\<open>update\<close>
  succeeds and \<^verbatim>\<open>check\<close> ends in the exception of \<^verbatim>\<open>load_hash_store\<close>. And it fails on the
  store file itself: \<^verbatim>\<open>update\<close> hashes the bytes of the store and then rewrites them, so
  \<^verbatim>\<open>check\<close> finds other bytes and reports a modified file.
\<close>

theorem round_trip_counterexample:
  "fs_kind lone_unreadable ''f'' = Regular
   \<and> update_file toy_hex lone_unreadable ''f''
       = (Inr False, lone_unreadable\<lparr>stdout := [ErrorReadingFile ''f'']\<rparr>)
   \<and> check_file toy_hex (lone_unreadable\<lparr>stdout := [ErrorReadingFile ''f'']\<rparr>) ''f''
       = (Inr False,
          lone_unreadable\<lparr>stdout := [ErrorReadingFile ''f'', ErrorReadingFile ''f'', StatusNew]\<rparr>)
   \<and> fs_kind demo_write_only ''a'' = Regular
   \<and> fst (update_file toy_hex demo_write_only ''a'') = Inr True
   \<and> fst (check_file toy_hex (snd (update_file toy_hex demo_write_only ''a'')) ''a'')
       = Inl PermissionError
   \<and> fs_kind store_itself ''s'' = Regular
   \<and> fst (update_file toy_hex store_itself ''s'') = Inr True
   \<and> fst (check_file toy_hex (snd (update_file toy_hex store_itself ''s'')) ''s'') = Inr False
   \<and> stdout (snd (check_file toy_hex (snd (update_file toy_hex store_itself ''s'')) ''s''))
       = [HashUpdated, StatusModified]"
proof -
  have u: "fst (update_file toy_hex demo_write_only ''a'') = Inr True"
    by (simp add: update_file_conv load_hash_store_def open_and_parse_def write_outcome_def
        demo_write_only_def demo_def)
  have c: "fst (check_file toy_hex (snd (update_file toy_hex demo_write_only ''a'')) ''a'')
             = Inl PermissionError"
    by (simp add: update_file_conv load_hash_store_def open_and_parse_def write_outcome_def
        check_file_def py_print_def store_written_kind demo_write_only_def demo_def)
  have k: "fs_kind demo_write_only ''a'' = Regular"
    by (simp add: demo_write_only_def demo_def)
  have l: "fs_kind lone_unreadable ''f'' = Regular
   \<and> update_file toy_hex lone_unreadable ''f''
       = (Inr False, lone_unreadable\<lparr>stdout := [ErrorReadingFile ''f'']\<rparr>)
   \<and> check_file toy_hex (lone_unreadable\<lparr>stdout := [ErrorReadingFile ''f'']\<rparr>) ''f''
       = (Inr False,
          lone_unreadable\<lparr>stdout := [ErrorReadingFile ''f'', ErrorReadingFile ''f'', StatusNew]\<rparr>)"
    by (simp add: update_file_def check_file_def compute_file_hash_conv load_hash_store_def
        open_and_parse_def py_print_def lone_unreadable_def)
  have sk: "fs_kind store_itself ''s'' = Regular" by (simp add: store_itself_def)
  have su: "update_file toy_hex store_itself ''s''
      = (Inr True,
         py_print HashUpdated
           (store_written store_itself (Holds (JObj [(''s'', JStr (toy_hex []))])) [0]))"
    by (simp add: update_file_conv load_hash_store_def open_and_parse_def write_outcome_def
        store_itself_def toy_dump_def)
  have sc: "check_file toy_hex
        (py_print HashUpdated
           (store_written store_itself (Holds (JObj [(''s'', JStr (toy_hex []))])) [0])) ''s''
      = (Inr False,
         py_print StatusModified (py_print HashUpdated
           (store_written store_itself (Holds (JObj [(''s'', JStr (toy_hex []))])) [0])))"
    by (simp add: check_file_def compute_file_hash_conv load_hash_store_def open_and_parse_def
        py_print_def store_written_kind store_written_content store_itself_def toy_hex_def)
  have ss: "stdout store_itself = []" by (simp add: store_itself_def)
  have sf: "fst (check_file toy_hex (snd (update_file toy_hex store_itself ''s'')) ''s'')
              = Inr False"
    by (simp add: su sc)
  have so: "stdout (snd (check_file toy_hex (snd (update_file toy_hex store_itself ''s'')) ''s''))
              = [HashUpdated, StatusModified]"
    by (simp add: su sc) (simp add: py_print_def ss)
  have st: "fst (update_file toy_hex store_itself ''s'') = Inr True"
    by (simp add: su)
  from l k sk u c st sf so show ?thesis by simp
qed

subsection \<open>C2: the three outcomes of check on a file\<close>

text \<open>
  Claim C2, as amended: for a regular file, when \<^verbatim>\<open>load_hash_store\<close> returns a mapping
  (a JSON object, with entries \<open>kvs\<close>), \<^verbatim>\<open>check_file\<close> has exactly one of three outcomes. Without an entry for the path it prints "Status: New
  file" and returns failure; with an entry equal to the value \<^verbatim>\<open>compute_file_hash\<close>
  returns it prints "Status: Unmodified" and returns success; with an entry that differs
  it prints "Status: Modified" and returns failure.
\<close>

theorem check_file_classifies:
  assumes "fs_kind w p = Regular" and "load_hash_store w = Inr (JObj kvs)"
  shows "check_file H w p =
     (case map_of kvs p of
        None \<Rightarrow> (Inr False, py_print StatusNew (snd (compute_file_hash H w p)))
      | Some stored \<Rightarrow>
          if py_eq (file_digest H w p) stored
          then (Inr True, py_print StatusUnmodified (snd (compute_file_hash H w p)))
          else (Inr False, py_print StatusModified (snd (compute_file_hash H w p))))"
  using assms by (rule check_file_obj)

theorem check_file_classifies_witness:
  "fs_kind demo ''a'' = Regular \<and> fs_kind demo ''D/y.log'' = Regular
   \<and> fs_kind demo ''D/z.log'' = Regular \<and> load_hash_store demo = Inr (JObj demo_entries)
   \<and> check_file toy_hex demo ''a'' = (Inr True, demo\<lparr>stdout := [StatusUnmodified]\<rparr>)
   \<and> check_file toy_hex demo ''D/y.log'' = (Inr False, demo\<lparr>stdout := [StatusModified]\<rparr>)
   \<and> check_file toy_hex demo ''D/z.log''
       = (Inr False, demo\<lparr>stdout := [ErrorReadingFile ''D/z.log'', StatusNew]\<rparr>)"
proof -
  have k: "fs_kind demo ''a'' = Regular" "fs_kind demo ''D/y.log'' = Regular"
    "fs_kind demo ''D/z.log'' = Regular"
    by (simp_all add: demo_def)
  have m: "map_of demo_entries ''a'' = Some (JStr (toy_hex [67]))"
    "map_of demo_entries ''D/y.log'' = Some (JStr (toy_hex []))"
    "map_of demo_entries ''D/z.log'' = None"
    by (simp_all add: demo_entries_def)
  have c: "compute_file_hash toy_hex demo ''a'' = (Some (toy_hex [67]), demo)"
    "compute_file_hash toy_hex demo ''D/y.log'' = (Some (toy_hex [66, 66, 66]), demo)"
    "compute_file_hash toy_hex demo ''D/z.log''
       = (None, demo\<lparr>stdout := [ErrorReadingFile ''D/z.log'']\<rparr>)"
    by (simp_all add: compute_file_hash_conv demo_def)
  have t: "toy_hex [66, 66, 66] \<noteq> toy_hex []" by (simp add: toy_hex_def)
  have s: "stdout demo = []" by (simp add: demo_def)
  show ?thesis
    using check_file_classifies [OF k(1) demo_load, of toy_hex]
      check_file_classifies [OF k(2) demo_load, of toy_hex]
      check_file_classifies [OF k(3) demo_load, of toy_hex]
    by (simp add: k demo_load m c t s file_digest_def py_print_def)
qed

text \<open>
  The claim as first stated, for every path that is a regular file, fails when the store
  does not load as a mapping: with a store file that may not be read, \<^verbatim>\<open>check_file\<close> ends
  in the \<^verbatim>\<open>PermissionError\<close> of \<^verbatim>\<open>load_hash_store\<close>, and with a store file that holds
  \<^verbatim>\<open>null\<close> it ends in the \<^verbatim>\<open>TypeError\<close> of \<^verbatim>\<open>file_path not in hash_store\<close>; neither is
  one of the three outcomes.
\<close>

theorem check_file_counterexample:
  "fs_kind demo_locked ''a'' = Regular
   \<and> check_file toy_hex demo_locked ''a'' = (Inl PermissionError, demo_locked)
   \<and> fs_kind demo_null_store ''a'' = Regular
   \<and> check_file toy_hex demo_null_store ''a'' = (Inl TypeError, demo_null_store)"
  by (simp add: check_file_def compute_file_hash_conv load_hash_store_def open_and_parse_def
      demo_locked_def demo_null_store_def demo_def)

subsection \<open>C3: initialize replaces the store\<close>

text \<open>
  Claim C3, as amended: when \<^verbatim>\<open>initialize(directory)\<close> reports success, the persisted
  store is a new mapping that has an entry exactly for the walked paths that were hashed
  (with a non-empty digest), whatever the store held before; so for a regular file \<open>a\<close>
  that the walk did not visit, and a store file that may be read, a following
  \<^verbatim>\<open>check(a)\<close> reports a new file.
\<close>

theorem initialize_replaces_store:
  assumes "initialize H w d = (True, w')"
  shows "\<exists>kvs. store_data w' = Holds (JObj kvs)
     \<and> (\<forall>p. map_of kvs p =
             (if p \<in> set (walk_paths w d)
              then (case file_digest H w p of
                      None \<Rightarrow> None
                    | Some h \<Rightarrow> if h = [] then None else Some (JStr h))
              else None))
     \<and> (fs_kind w a = Regular \<and> a \<notin> set (walk_paths w d) \<and> store_readable w
          \<longrightarrow> check_file H w' a = (Inr False, py_print StatusNew (snd (compute_file_hash H w' a))))"
proof -
  let ?kvs = "fst (fold (init_file H) (walk_paths w d) ([], 0, w))"
  from initialize_success [OF assms, of a] have
    sd: "store_data w' = Holds (JObj ?kvs)" and
    o: "write_outcome w = WriteOK" and
    sr: "store_readable w' = store_readable w" and
    dr: "store_dir w' = store_dir w" and
    ka: "fs_kind w a = Regular \<longrightarrow> fs_kind w' a = Regular"
    by simp_all
  from o have d: "store_dir w = DirOK"
    by (simp add: write_outcome_def split: if_splits)
  have m: "\<forall>p. map_of ?kvs p =
             (if p \<in> set (walk_paths w d)
              then (case file_digest H w p of
                      None \<Rightarrow> None
                    | Some h \<Rightarrow> if h = [] then None else Some (JStr h))
              else None)"
    by (simp add: init_loop_map split: option.splits)
  have c: "check_file H w' a = (Inr False, py_print StatusNew (snd (compute_file_hash H w' a)))"
    if a: "fs_kind w a = Regular" "a \<notin> set (walk_paths w d)" "store_readable w"
  proof -
    have k': "fs_kind w' a = Regular" and r': "store_readable w'"
      using a ka sr by simp_all
    have l: "load_hash_store w' = Inr (JObj ?kvs)"
      using sd r' dr d by (simp add: load_hash_store_def open_and_parse_def)
    have "map_of ?kvs a = None" using m a(2) by simp
    with check_file_obj [OF k' l, of H] show ?thesis by simp
  qed
  from sd m c show ?thesis by blast
qed

theorem initialize_replaces_store_witness:
  "fst (initialize toy_hex demo ''D'')
   \<and> store_data (snd (initialize toy_hex demo ''D''))
       = Holds (JObj [(''D/x.log'', JStr (toy_hex [65, 65, 65])),
                      (''D/y.log'', JStr (toy_hex [66, 66, 66]))])
   \<and> fs_kind demo ''a'' = Regular \<and> ''a'' \<notin> set (walk_paths demo ''D'') \<and> store_readable demo
   \<and> fst (check_file toy_hex (snd (initialize toy_hex demo ''D'')) ''a'') = Inr False
   \<and> stdout (snd (check_file toy_hex (snd (initialize toy_hex demo ''D'')) ''a''))
       = [ErrorReadingFile ''D/z.log'', HashesStored 2, StatusNew]"
proof -
  have k: "fs_kind demo ''a'' = Regular" and r: "store_readable demo"
    and c: "fs_content demo ''a'' = Some [67]"
    by (simp_all add: demo_def)
  have n: "''a'' \<notin> set (walk_paths demo ''D'')" by (simp add: demo_walk)
  show ?thesis
    using initialize_replaces_store [OF demo_initialize, of "''a''"]
    by (simp add: demo_initialize k r n c compute_file_hash_conv py_print_def)
qed

text \<open>
  The claim as first stated fails when the store file cannot be opened for writing:
  \<^verbatim>\<open>initialize\<close> returns failure, the earlier store is still there, and \<^verbatim>\<open>check(a)\<close>
  reports the file \<open>a\<close>, which is not under the directory, as unmodified. It also fails
  for a store file that may be written but not read: \<^verbatim>\<open>initialize\<close> succeeds and
  \<^verbatim>\<open>check(a)\<close> ends in the exception of \<^verbatim>\<open>load_hash_store\<close>.
\<close>

theorem initialize_counterexample:
  "fs_kind demo_read_only ''D'' = Directory \<and> fs_kind demo_read_only ''a'' = Regular
   \<and> ''a'' \<notin> set (walk_paths demo_read_only ''D'')
   \<and> initialize toy_hex demo_read_only ''D''
       = (False, demo_read_only\<lparr>stdout := [ErrorReadingFile ''D/z.log'', ErrorSavingStore]\<rparr>)
   \<and> check_file toy_hex
         (demo_read_only\<lparr>stdout := [ErrorReadingFile ''D/z.log'', ErrorSavingStore]\<rparr>) ''a''
       = (Inr True,
          demo_read_only\<lparr>stdout := [ErrorReadingFile ''D/z.log'', ErrorSavingStore,
                                       StatusUnmodified]\<rparr>)
   \<and> fst (initialize toy_hex demo_locked ''D'')
   \<and> fst (check_file toy_hex (snd (initialize toy_hex demo_locked ''D'')) ''a'')
       = Inl PermissionError"
proof -
  have lk: "fs_kind demo_locked ''D'' = Directory" and lw: "write_outcome demo_locked = WriteOK"
    by (simp_all add: demo_locked_def demo_def write_outcome_def)
  have li: "fst (initialize toy_hex demo_locked ''D'')"
    by (simp add: initialize_conv [OF lk] lw)
  have lc: "fst (check_file toy_hex (snd (initialize toy_hex demo_locked ''D'')) ''a'')
       = Inl PermissionError"
    by (simp add: initialize_conv [OF lk] lw check_file_def load_hash_store_def
        open_and_parse_def store_written_kind)
       (simp add: demo_locked_def demo_def)
  have k: "fs_kind demo_read_only ''D'' = Directory" "fs_kind demo_read_only ''a'' = Regular"
    by (simp_all add: demo_read_only_def demo_def)
  have wp: "walk_paths demo_read_only ''D'' = [''D/x.log'', ''D/y.log'', ''D/z.log'']"
    by (simp add: walk_paths_def demo_read_only_def demo_def path_join_def)
  have e: "read_errors demo_read_only [''D/x.log'', ''D/y.log'', ''D/z.log'']
             = [ErrorReadingFile ''D/z.log'']"
    by (simp add: read_errors_def demo_read_only_def demo_def)
  have wr: "write_outcome demo_read_only = OpenFails" and s: "stdout demo_read_only = []"
    by (simp_all add: demo_read_only_def demo_def write_outcome_def)
  have i: "initialize toy_hex demo_read_only ''D''
       = (False, demo_read_only\<lparr>stdout := [ErrorReadingFile ''D/z.log'', ErrorSavingStore]\<rparr>)"
    unfolding initialize_conv [OF k(1)] wp e wr s by simp
  have c: "check_file toy_hex
         (demo_read_only\<lparr>stdout := [ErrorReadingFile ''D/z.log'', ErrorSavingStore]\<rparr>) ''a''
       = (Inr True,
          demo_read_only\<lparr>stdout := [ErrorReadingFile ''D/z.log'', ErrorSavingStore,
                                       StatusUnmodified]\<rparr>)"
    by (simp add: check_file_def compute_file_hash_conv load_hash_store_def open_and_parse_def
        py_print_def demo_read_only_def demo_def demo_entries_def)
  show ?thesis by (simp only: k wp i c li lc) simp
qed

subsection \<open>C4: files that cannot be read, in a directory check\<close>

text \<open>
  Claim C4 holds for \<^verbatim>\<open>initialize\<close>, which skips a file whose hash is \<^verbatim>\<open>None\<close>, and
  fails for \<^verbatim>\<open>check_directory\<close>, which has no such test: a directory check of two
  files that cannot be read lists the tracked one as modified and the other one as new.
\<close>

theorem check_directory_lists_unreadable:
  "check_directory toy_hex two_unreadable ''D'' =
     (Inr False,
      two_unreadable\<lparr>stdout := [ErrorReadingFile ''D/x.log'', ErrorReadingFile ''D/z.log'',
                                  ModifiedHeader, ListItem ''D/x.log'',
                                  NewHeader, ListItem ''D/z.log'']\<rparr>)"
proof -
  let ?kvs = "[(''D/x.log'', JStr (toy_hex [65, 65, 65]))]"
  have k: "fs_kind two_unreadable ''D'' = Directory" by (simp add: two_unreadable_def)
  have l: "load_hash_store two_unreadable = Inr (JObj ?kvs)"
    by (simp add: two_unreadable_def load_hash_store_def open_and_parse_def)
  have wp: "walk_paths two_unreadable ''D'' = [''D/x.log'', ''D/z.log'']"
    by (simp add: walk_paths_def two_unreadable_def path_join_def)
  have m: "listed_modified toy_hex two_unreadable ?kvs [''D/x.log'', ''D/z.log'']
             = [''D/x.log'']"
    by (simp add: listed_modified_def file_digest_conv two_unreadable_def)
  have n: "listed_new ?kvs [''D/x.log'', ''D/z.log''] = [''D/z.log'']"
    by (simp add: listed_new_def)
  have e: "read_errors two_unreadable [''D/x.log'', ''D/z.log'']
             = [ErrorReadingFile ''D/x.log'', ErrorReadingFile ''D/z.log'']"
    by (simp add: read_errors_def two_unreadable_def)
  have s: "stdout two_unreadable = []" by (simp add: two_unreadable_def)
  show ?thesis
    unfolding check_directory_obj [OF k l] wp m n e s by simp
qed


subsection \<open>C5: loading the store\<close>

text \<open>
  Claim C5, as amended: \<^verbatim>\<open>load_hash_store\<close> returns an empty mapping, and raises
  nothing, whenever the directory of the store can be searched and the store file is
  absent, or the store file can be read and decoded and \<^verbatim>\<open>json.load\<close> rejects its text
  with \<^verbatim>\<open>JSONDecodeError\<close>.
\<close>

theorem load_hash_store_recovers:
  assumes "store_dir w = DirOK"
    and "store_data w = Missing \<or> (store_readable w \<and> store_data w = NotJson)"
  shows "load_hash_store w = Inr (JObj [])"
  using assms by (rule load_empty)

theorem load_hash_store_recovers_witness:
  "store_dir demo_first_run = DirOK \<and> store_data demo_first_run = Missing
   \<and> load_hash_store demo_first_run = Inr (JObj [])
   \<and> store_dir demo_garbled = DirOK \<and> store_readable demo_garbled
   \<and> store_data demo_garbled = NotJson
   \<and> load_hash_store demo_garbled = Inr (JObj [])"
proof -
  have a: "store_dir demo_first_run = DirOK" "store_data demo_first_run = Missing"
    by (simp_all add: demo_first_run_def demo_def)
  have b: "store_dir demo_garbled = DirOK" "store_readable demo_garbled"
    "store_data demo_garbled = NotJson"
    by (simp_all add: demo_garbled_def demo_def)
  show ?thesis
    using load_hash_store_recovers [of demo_first_run] load_hash_store_recovers [of demo_garbled]
    by (simp add: a b)
qed

text \<open>
  The claim as first stated fails for a store file that exists and may not be read, for
  one whose bytes do not decode as text, for an absent store file below a home path that
  is no directory, for a text nested too deep and for a text with an over-long integer:
  the \<^verbatim>\<open>except\<close> clause names \<^verbatim>\<open>FileNotFoundError\<close> and \<^verbatim>\<open>JSONDecodeError\<close> only, so each
  of these exceptions leaves \<^verbatim>\<open>load_hash_store\<close>.
\<close>

theorem load_hash_store_counterexample:
  "store_data demo_locked = Holds (JObj demo_entries)
   \<and> load_hash_store demo_locked = Inl PermissionError
   \<and> load_hash_store demo_binary = Inl UnicodeDecodeError
   \<and> store_data demo_no_home = Missing
   \<and> load_hash_store demo_no_home = Inl NotADirectoryError
   \<and> load_hash_store demo_too_deep = Inl RecursionError
   \<and> load_hash_store demo_too_long = Inl ValueError"
  by (simp add: load_hash_store_def open_and_parse_def demo_locked_def demo_binary_def
      demo_no_home_def demo_too_deep_def demo_too_long_def demo_def)

subsection \<open>C6: check on a directory\<close>

text \<open>
  Claim C6, as amended: for a directory, when \<^verbatim>\<open>load_hash_store\<close> returns a mapping (a
  JSON object, with entries \<open>kvs\<close>), \<^verbatim>\<open>check_directory\<close> loads the store once and builds a
  modified list \<open>m\<close> and a new list \<open>n\<close> of walked paths. Of the files that can be hashed,
  \<open>m\<close> holds exactly those whose entry is not their digest and \<open>n\<close> exactly those without
  an entry, in the order of the walk. It prints the modified list before the new list
  and returns success exactly when both lists are empty. What the lists hold of the
  files that cannot be hashed is not stated here (claim C4).
\<close>

theorem check_directory_report:
  assumes "fs_kind w d = Directory" and "load_hash_store w = Inr (JObj kvs)"
  shows "\<exists>m n.
     check_directory H w d =
       (Inr (m = [] \<and> n = []),
        w\<lparr>stdout := stdout w @ read_errors w (walk_paths w d)
           @ (if m = [] \<and> n = [] then [AllUnmodified]
              else (if m \<noteq> [] then ModifiedHeader # map ListItem m else [])
                 @ (if n \<noteq> [] then NewHeader # map ListItem n else []))\<rparr>)
     \<and> filter (\<lambda>p. fs_content w p \<noteq> None) m = spec_modified_paths H w kvs (walk_paths w d)
     \<and> filter (\<lambda>p. fs_content w p \<noteq> None) n = spec_new_paths w kvs (walk_paths w d)
     \<and> set m \<subseteq> set (walk_paths w d) \<and> set n \<subseteq> set (walk_paths w d)"
proof -
  let ?m = "listed_modified H w kvs (walk_paths w d)"
  let ?n = "listed_new kvs (walk_paths w d)"
  have "check_directory H w d =
       (Inr (?m = [] \<and> ?n = []),
        w\<lparr>stdout := stdout w @ read_errors w (walk_paths w d)
           @ (if ?m = [] \<and> ?n = [] then [AllUnmodified]
              else (if ?m \<noteq> [] then ModifiedHeader # map ListItem ?m else [])
                 @ (if ?n \<noteq> [] then NewHeader # map ListItem ?n else []))\<rparr>)"
    using assms by (rule check_directory_obj)
  moreover have "filter (\<lambda>p. fs_content w p \<noteq> None) ?m
      = spec_modified_paths H w kvs (walk_paths w d)"
    by (rule listed_modified_hashable)
  moreover have "filter (\<lambda>p. fs_content w p \<noteq> None) ?n = spec_new_paths w kvs (walk_paths w d)"
    by (rule listed_new_hashable)
  moreover have "set ?m \<subseteq> set (walk_paths w d)" "set ?n \<subseteq> set (walk_paths w d)"
    by (rule listed_subset)+
  ultimately show ?thesis by blast
qed

theorem check_directory_report_witness:
  "fs_kind demo_readable ''D'' = Directory
   \<and> load_hash_store demo_readable = Inr (JObj demo_entries)
   \<and> spec_modified_paths toy_hex demo_readable demo_entries (walk_paths demo_readable ''D'')
       = [''D/y.log'']
   \<and> spec_new_paths demo_readable demo_entries (walk_paths demo_readable ''D'') = [''D/z.log'']
   \<and> check_directory toy_hex demo_readable ''D'' =
       (Inr False,
        demo_readable\<lparr>stdout := [ModifiedHeader, ListItem ''D/y.log'',
                                   NewHeader, ListItem ''D/z.log'']\<rparr>)"
proof -
  have k: "fs_kind demo_readable ''D'' = Directory" by (simp add: demo_readable_def demo_def)
  have s: "stdout demo_readable = []" by (simp add: demo_readable_def demo_def)
  have c: "check_directory toy_hex demo_readable ''D'' =
       (Inr False,
        demo_readable\<lparr>stdout := [ModifiedHeader, ListItem ''D/y.log'',
                                   NewHeader, ListItem ''D/z.log'']\<rparr>)"
    unfolding check_directory_obj [OF k demo_readable_load] demo_readable_walk
      demo_readable_lists s
    by simp
  have sm: "spec_modified_paths toy_hex demo_readable demo_entries [''D/x.log'', ''D/y.log'', ''D/z.log'']
       = [''D/y.log'']"
    by (simp add: spec_modified_paths_def demo_readable_def demo_def demo_entries_def toy_hex_def)
  have sn: "spec_new_paths demo_readable demo_entries [''D/x.log'', ''D/y.log'', ''D/z.log'']
       = [''D/z.log'']"
    by (simp add: spec_new_paths_def demo_readable_def demo_def demo_entries_def)
  show ?thesis
    using check_directory_report [OF k demo_readable_load, of toy_hex]
    by (simp add: k demo_readable_load demo_readable_walk sm sn c)
qed

text \<open>
  The claim as first stated, for every directory path, fails when the store does not load
  as a mapping: with a store file that may not be read, \<^verbatim>\<open>check_directory\<close> ends in the
  \<^verbatim>\<open>PermissionError\<close> of \<^verbatim>\<open>load_hash_store\<close> and prints nothing, and with a store file that
  holds \<^verbatim>\<open>null\<close> it ends in a \<^verbatim>\<open>TypeError\<close> at the first file of the walk.
\<close>

theorem check_directory_counterexample:
  "fs_kind demo_locked ''D'' = Directory
   \<and> check_directory toy_hex demo_locked ''D'' = (Inl PermissionError, demo_locked)
   \<and> fs_kind demo_null_store ''D'' = Directory
   \<and> check_directory toy_hex demo_null_store ''D'' = (Inl TypeError, demo_null_store)"
  by (simp add: check_directory_def check_dir_file_def compute_file_hash_conv
      load_hash_store_def open_and_parse_def path_join_def
      demo_locked_def demo_null_store_def demo_def)

subsection \<open>C7: the effect of update\<close>

text \<open>
  Claim C7, as amended. \<^verbatim>\<open>update(path)\<close> requires a regular file: on any other path it
  prints an error, returns failure and changes nothing. When it reports success, the
  persisted store is the loaded store with the entry of that exact path string set to
  the digest of the file's content, and the entry of every other path is as it was. A
  run that does not succeed leaves the store, and all else but the output, as it was,
  with one exception: a run whose write of the store fails after the store file was
  opened leaves a store file that is not JSON.
\<close>

theorem update_file_effect:
  "(update_file H w p = (Inr True, w') \<longrightarrow>
      (\<exists>kvs kvs' bs. fs_kind w p = Regular \<and> fs_content w p = Some bs
           \<and> load_hash_store w = Inr (JObj kvs)
           \<and> store_data w' = Holds (JObj kvs')
           \<and> map_of kvs' p = Some (JStr (H bs))
           \<and> (q \<noteq> p \<longrightarrow> map_of kvs' q = map_of kvs q)))
   \<and> (fst (update_file H w p) \<noteq> Inr True \<longrightarrow>
        (snd (update_file H w p))\<lparr>stdout := stdout w\<rparr> = w
        \<or> (fs_kind w p = Regular \<and> write_outcome w = WriteFails
            \<and> store_data (snd (update_file H w p)) = NotJson
            \<and> (\<exists>bs kvs. fs_content w p = Some bs \<and> load_hash_store w = Inr (JObj kvs))))
   \<and> (fs_kind w p \<noteq> Regular \<longrightarrow>
        update_file H w p = (Inr False, py_print (NotValidFile p) w))"
proof -
  have a: "\<exists>kvs kvs' bs. fs_kind w p = Regular \<and> fs_content w p = Some bs
           \<and> load_hash_store w = Inr (JObj kvs)
           \<and> store_data w' = Holds (JObj kvs')
           \<and> map_of kvs' p = Some (JStr (H bs))
           \<and> (q \<noteq> p \<longrightarrow> map_of kvs' q = map_of kvs q)"
    if u: "update_file H w p = (Inr True, w')"
  proof -
    from update_file_success [OF u] obtain kvs bs where
      k: "fs_kind w p = Regular" and bs: "fs_content w p = Some bs" and
      l: "load_hash_store w = Inr (JObj kvs)" and
      w': "w' = py_print HashUpdated
                 (store_written w (Holds (JObj (AList.update p (JStr (H bs)) kvs)))
                    (dump_bytes w (JObj (AList.update p (JStr (H bs)) kvs))))"
      by blast
    have "store_data w' = Holds (JObj (AList.update p (JStr (H bs)) kvs))"
      by (simp add: w' py_print_def)
    moreover have "map_of (AList.update p (JStr (H bs)) kvs) p = Some (JStr (H bs))"
      by (simp add: update_conv')
    moreover have "q \<noteq> p \<longrightarrow> map_of (AList.update p (JStr (H bs)) kvs) q = map_of kvs q"
      by (simp add: update_conv')
    ultimately show ?thesis using k bs l by blast
  qed
  have b: "(snd (update_file H w p))\<lparr>stdout := stdout w\<rparr> = w
        \<or> (fs_kind w p = Regular \<and> write_outcome w = WriteFails
            \<and> store_data (snd (update_file H w p)) = NotJson
            \<and> (\<exists>bs kvs. fs_content w p = Some bs \<and> load_hash_store w = Inr (JObj kvs)))"
    if "fst (update_file H w p) \<noteq> Inr True"
    using that by (rule update_file_failure)
  have c: "update_file H w p = (Inr False, py_print (NotValidFile p) w)"
    if "fs_kind w p \<noteq> Regular"
    using that by (simp add: update_file_def)
  from a b c show ?thesis by blast
qed

theorem update_file_effect_witness:
  "fst (update_file toy_hex demo ''D/y.log'') = Inr True
   \<and> store_data (snd (update_file toy_hex demo ''D/y.log''))
       = Holds (JObj [(''D/x.log'', JStr (toy_hex [65, 65, 65])),
                      (''D/y.log'', JStr (toy_hex [66, 66, 66])),
                      (''a'', JStr (toy_hex [67]))])
   \<and> ''a'' \<noteq> ''D/y.log''
   \<and> map_of demo_entries ''a'' = Some (JStr (toy_hex [67]))
   \<and> fst (update_file toy_hex demo_read_only ''D/y.log'') = Inr False
   \<and> (snd (update_file toy_hex demo_read_only ''D/y.log''))\<lparr>stdout := stdout demo_read_only\<rparr>
       = demo_read_only
   \<and> fs_kind demo ''D'' = Directory
   \<and> update_file toy_hex demo ''D'' = (Inr False, demo\<lparr>stdout := [NotValidFile ''D'']\<rparr>)"
proof -
  have r: "update_file toy_hex demo_read_only ''D/y.log''
             = (Inr False, demo_read_only\<lparr>stdout := [ErrorSavingStore]\<rparr>)"
    by (simp add: update_file_conv load_hash_store_def open_and_parse_def write_outcome_def
        py_print_def demo_read_only_def demo_def)
  have k: "fs_kind demo ''D'' = Directory" and s: "stdout demo = []"
    by (simp_all add: demo_def)
  show ?thesis
    using update_file_effect [of toy_hex demo "''D/y.log''"
        "snd (update_file toy_hex demo ''D/y.log'')" "''a''"]
      update_file_effect [of toy_hex demo_read_only "''D/y.log''"]
      update_file_effect [of toy_hex demo "''D''"]
    by (simp add: demo_update demo_entries_def r k s py_print_def)
qed

text \<open>
  The claim as first stated fails when the write of the store fails after the file was
  opened (a full disk): \<^verbatim>\<open>update\<close> returns failure, and the store file, truncated by
  \<^verbatim>\<open>open(.., 'w')\<close>, loads as an empty mapping, so the entry of the other path \<^verbatim>\<open>a\<close> is lost.
\<close>

theorem update_file_counterexample:
  "fs_kind demo_disk_full ''D/y.log'' = Regular
   \<and> load_hash_store demo_disk_full = Inr (JObj demo_entries)
   \<and> map_of demo_entries ''a'' = Some (JStr (toy_hex [67]))
   \<and> fst (update_file toy_hex demo_disk_full ''D/y.log'') = Inr False
   \<and> load_hash_store (snd (update_file toy_hex demo_disk_full ''D/y.log'')) = Inr (JObj [])"
  by (simp add: update_file_conv load_hash_store_def open_and_parse_def write_outcome_def
      py_print_def demo_disk_full_def demo_def demo_entries_def)

subsection \<open>C8: check does not write the store\<close>

text \<open>
  Claim C8: the check command, on a file, on a directory or on any other path, changes
  nothing in the world but the output; the store file after it is the store file before
  it. This holds also when the check ends in an exception.
\<close>

theorem check_leaves_store:
  "store_data (snd (main_check H w p)) = store_data w
   \<and> (snd (main_check H w p))\<lparr>stdout := stdout w\<rparr> = w
   \<and> (snd (check_file H w p))\<lparr>stdout := stdout w\<rparr> = w
   \<and> (snd (check_directory H w p))\<lparr>stdout := stdout w\<rparr> = w"
proof -
  have "store_data ((snd (main_check H w p))\<lparr>stdout := stdout w\<rparr>) = store_data w"
    by (simp only: main_check_frame)
  then have "store_data (snd (main_check H w p)) = store_data w" by simp
  then show ?thesis
    by (simp add: main_check_frame check_file_frame check_directory_frame)
qed

subsection \<open>C9: the values of the store are digests\<close>

lemma initialize_store_ok:
  assumes H: "\<forall>bs. is_digest (H bs)" and i: "fst (initialize H w d)"
  shows "store_ok (snd (initialize H w d))"
proof -
  from i have "initialize H w d = (True, snd (initialize H w d))"
    by (simp add: prod_eq_iff)
  from initialize_success [OF this]
  have sd: "store_data (snd (initialize H w d))
              = Holds (JObj (fst (fold (init_file H) (walk_paths w d) ([], 0, w))))"
    by simp
  have "list_all (\<lambda>kv. digest_value (snd kv))
          (fst (fold (init_file H) (walk_paths w d) ([], 0, w)))"
    by (rule init_loop_all) (simp_all add: digest_value_def H)
  with sd show ?thesis by (simp add: store_ok_def)
qed

lemma initialize_keeps_store_ok:
  assumes H: "\<forall>bs. is_digest (H bs)" and ok: "store_ok w"
  shows "store_ok (snd (initialize H w d))"
proof (cases "fst (initialize H w d)")
  case True
  with H show ?thesis by (rule initialize_store_ok)
next
  case False
  show ?thesis
  proof (cases "fs_kind w d = Directory")
    case no_dir: False
    then have "store_data (snd (initialize H w d)) = store_data w"
      by (simp add: initialize_def py_print_def)
    from store_ok_same [OF this] ok show ?thesis by simp
  next
    case True
    from False ok show ?thesis
      by (cases "write_outcome w") (simp_all add: initialize_conv [OF True] store_ok_def)
  qed
qed

lemma update_file_keeps_store_ok:
  assumes H: "\<forall>bs. is_digest (H bs)" and ok: "store_ok w"
  shows "store_ok (snd (update_file H w p))"
proof -
  from update_file_store [of H w p] consider
      (same) "store_data (snd (update_file H w p)) = store_data w"
    | (lost) "store_data (snd (update_file H w p)) = NotJson"
    | (set) kvs bs where "load_hash_store w = Inr (JObj kvs)" "fs_content w p = Some bs"
        "store_data (snd (update_file H w p)) = Holds (JObj (AList.update p (JStr (H bs)) kvs))"
    by blast
  then show ?thesis
  proof cases
    case same
    from store_ok_same [OF same] ok show ?thesis by simp
  next
    case lost
    then show ?thesis by (simp add: store_ok_def)
  next
    case set
    have "list_all (\<lambda>kv. digest_value (snd kv)) kvs"
      using ok set(1) by (rule store_ok_load)
    then have "list_all (\<lambda>kv. digest_value (snd kv)) (AList.update p (JStr (H bs)) kvs)"
      by (rule list_all_update) (simp add: digest_value_def H)
    with set(3) show ?thesis by (simp add: store_ok_def)
  qed
qed

text \<open>
  Claim C9, for a \<^verbatim>\<open>hexdigest\<close> that returns 64 lowercase hexadecimal characters: a
  store that \<^verbatim>\<open>initialize\<close> writes holds digests only; \<^verbatim>\<open>initialize\<close>, \<^verbatim>\<open>update\<close> and
  \<^verbatim>\<open>check\<close> keep a store of digests a store of digests; and each value that \<^verbatim>\<open>update\<close>
  or \<^verbatim>\<open>initialize\<close> computes is the digest of all the bytes of its file.
\<close>

theorem store_digests_invariant:
  assumes "\<forall>bs. is_digest (H bs)"
  shows "(fst (initialize H w d) \<longrightarrow> store_ok (snd (initialize H w d)))
     \<and> (store_ok w \<longrightarrow>
          store_ok (snd (initialize H w d)) \<and> store_ok (snd (update_file H w p))
          \<and> store_ok (snd (main_check H w p)))
     \<and> (fst (update_file H w p) = Inr True \<longrightarrow>
          (\<exists>bs kvs. fs_content w p = Some bs
             \<and> store_data (snd (update_file H w p)) = Holds (JObj kvs)
             \<and> map_of kvs p = Some (JStr (H bs))))
     \<and> (fst (initialize H w d) \<longrightarrow>
          (\<exists>kvs. store_data (snd (initialize H w d)) = Holds (JObj kvs)
             \<and> list_all (\<lambda>kv. \<exists>bs. fs_content w (fst kv) = Some bs \<and> snd kv = JStr (H bs)) kvs))"
proof -
  have a: "fst (initialize H w d) \<longrightarrow> store_ok (snd (initialize H w d))"
    using assms by (simp add: initialize_store_ok)
  have b: "store_ok (snd (initialize H w d)) \<and> store_ok (snd (update_file H w p))
          \<and> store_ok (snd (main_check H w p))" if ok: "store_ok w"
  proof -
    have "store_data ((snd (main_check H w p))\<lparr>stdout := stdout w\<rparr>) = store_data w"
      by (simp only: main_check_frame)
    then have "store_data (snd (main_check H w p)) = store_data w" by simp
    from store_ok_same [OF this] ok have "store_ok (snd (main_check H w p))" by simp
    then show ?thesis
      using assms ok by (simp add: initialize_keeps_store_ok update_file_keeps_store_ok)
  qed
  have c: "\<exists>bs kvs. fs_content w p = Some bs
             \<and> store_data (snd (update_file H w p)) = Holds (JObj kvs)
             \<and> map_of kvs p = Some (JStr (H bs))" if u: "fst (update_file H w p) = Inr True"
  proof -
    from u have "update_file H w p = (Inr True, snd (update_file H w p))"
      by (simp add: prod_eq_iff)
    from update_file_success [OF this] obtain kvs bs where
      bs: "fs_content w p = Some bs" and
      w': "snd (update_file H w p)
             = py_print HashUpdated
                 (store_written w (Holds (JObj (AList.update p (JStr (H bs)) kvs)))
                    (dump_bytes w (JObj (AList.update p (JStr (H bs)) kvs))))"
      by blast
    have "store_data (snd (update_file H w p)) = Holds (JObj (AList.update p (JStr (H bs)) kvs))"
      by (simp add: w' py_print_def)
    moreover have "map_of (AList.update p (JStr (H bs)) kvs) p = Some (JStr (H bs))"
      by (simp add: update_conv')
    ultimately show ?thesis using bs by blast
  qed
  have e: "\<exists>kvs. store_data (snd (initialize H w d)) = Holds (JObj kvs)
             \<and> list_all (\<lambda>kv. \<exists>bs. fs_content w (fst kv) = Some bs \<and> snd kv = JStr (H bs)) kvs"
    if i: "fst (initialize H w d)"
  proof -
    from i have "initialize H w d = (True, snd (initialize H w d))"
      by (simp add: prod_eq_iff)
    from initialize_success [OF this]
    have sd: "store_data (snd (initialize H w d))
                = Holds (JObj (fst (fold (init_file H) (walk_paths w d) ([], 0, w))))"
      by simp
    have "list_all (\<lambda>kv. \<exists>bs. fs_content w (fst kv) = Some bs \<and> snd kv = JStr (H bs))
            (fst (fold (init_file H) (walk_paths w d) ([], 0, w)))"
      by (rule init_loop_all) simp_all
    with sd show ?thesis by blast
  qed
  from a b c e show ?thesis by blast
qed

lemma demo_store_ok: "store_ok demo"
  by (simp add: store_ok_def demo_def demo_entries_def digest_value_def toy_hex_digest)

theorem store_digests_invariant_witness:
  "(\<forall>bs. is_digest (toy_hex bs)) \<and> store_ok demo
   \<and> fst (initialize toy_hex demo ''D'') \<and> store_ok (snd (initialize toy_hex demo ''D''))
   \<and> fst (update_file toy_hex demo ''D/y.log'') = Inr True
   \<and> store_ok (snd (update_file toy_hex demo ''D/y.log''))
   \<and> store_ok (snd (main_check toy_hex demo ''D/y.log''))"
proof -
  have H: "\<forall>bs. is_digest (toy_hex bs)" by (simp add: toy_hex_digest)
  have i: "fst (initialize toy_hex demo ''D'')" by (simp add: demo_initialize)
  have u: "fst (update_file toy_hex demo ''D/y.log'') = Inr True" by (simp add: demo_update)
  from store_digests_invariant [OF H, of demo "''D''" "''D/y.log''"] H demo_store_ok i u
  show ?thesis by blast
qed

subsection \<open>C10: update on a file that cannot be read\<close>

text \<open>
  Claim C10: on a regular file whose hash cannot be computed, \<^verbatim>\<open>update_file\<close> prints the
  read error and returns failure; the store is neither loaded nor written, so the store
  file is as it was.
\<close>

theorem update_file_read_error:
  assumes "fs_kind w p = Regular" and "fs_content w p = None"
  shows "update_file H w p = (Inr False, py_print (ErrorReadingFile p) w)
     \<and> store_data (snd (update_file H w p)) = store_data w"
  using assms by (simp add: update_file_def compute_file_hash_conv py_print_def)

theorem update_file_read_error_witness:
  "fs_kind demo_locked ''D/z.log'' = Regular \<and> fs_content demo_locked ''D/z.log'' = None
   \<and> update_file toy_hex demo_locked ''D/z.log''
       = (Inr False, demo_locked\<lparr>stdout := [ErrorReadingFile ''D/z.log'']\<rparr>)
   \<and> store_data (snd (update_file toy_hex demo_locked ''D/z.log'')) = Holds (JObj demo_entries)"
proof -
  have k: "fs_kind demo_locked ''D/z.log'' = Regular"
    and c: "fs_content demo_locked ''D/z.log'' = None"
    and s: "stdout demo_locked = []" "store_data demo_locked = Holds (JObj demo_entries)"
    by (simp_all add: demo_locked_def demo_def)
  show ?thesis
    using update_file_read_error [OF k c, of toy_hex]
    by (simp add: k c s py_print_def)
qed

end
